theory Spec2Isabelle
  imports Complex_Main "HOL-Library.Char_ord" "HOL-Library.List_Lexorder" "HOL-Library.Sublist"
begin

section \<open>Reading TensorBoard event files: the data model\<close>

text \<open>
  The repository has two modules. \<^verbatim>\<open>read_results.py\<close> locates event files
  (\<^verbatim>\<open>_find_event_files\<close>), parses one file through one of two backends
  (\<^verbatim>\<open>_read_with_event_accumulator\<close>, \<^verbatim>\<open>_read_with_tf_summary_iterator\<close>) with a
  fallback policy (\<^verbatim>\<open>read_events\<close>) and reads a batch of files (\<^verbatim>\<open>main\<close>).
  \<^verbatim>\<open>collect_max_tag.py\<close> computes the maximum of one tag over a run directory
  (\<^verbatim>\<open>compute_max_for_run\<close>).

  A scalar value is a Python float, which the aggregator compares with \<^verbatim>\<open>>\<close>: it
  is a \<open>pyfloat\<close>, a number, an infinity or NaN, and \<open>py_gt\<close> is Python's comparison,
  false whenever one side is NaN. Wall times are only stored and modification times
  (finite time stamps) only sorted; both are modelled by their numeric value in
  \<open>real\<close>. Exceptions are values of \<open>exn\<close> carrying the text that \<^verbatim>\<open>str(e)\<close>
  gives.
\<close>

datatype pyfloat = Num real | PosInf | NegInf | NaN

fun py_gt :: "pyfloat \<Rightarrow> pyfloat \<Rightarrow> bool" where
  "py_gt NaN y = False"
| "py_gt x NaN = False"
| "py_gt PosInf PosInf = False"
| "py_gt PosInf y = True"
| "py_gt x PosInf = False"
| "py_gt NegInf y = False"
| "py_gt (Num a) NegInf = True"
| "py_gt (Num a) (Num b) = (a > b)"

type_synonym path = string

datatype exn =
    ImportError string
  | LibraryError string
  | FileNotFoundError string
  | RuntimeError string

text \<open>\<^verbatim>\<open>str(e)\<close>: the message the exception was raised with.\<close>

fun str :: "exn \<Rightarrow> string" where
  "str (ImportError m) = m"
| "str (LibraryError m) = m"
| "str (FileNotFoundError m) = m"
| "str (RuntimeError m) = m"

text \<open>What the program writes: a line printed on standard output, or a text written to
  \<^verbatim>\<open>sys.stderr\<close>.\<close>

datatype written = Stdout string | Stderr string

text \<open>A row as both backends build it: the dict \<^verbatim>\<open>{tag, step, value, wall_time}\<close>.
  A field that holds Python's \<^verbatim>\<open>None\<close> is \<open>None\<close>.\<close>

record row =
  tag :: string
  step :: "int option"
  val :: "pyfloat option"
  wall_time :: "real option"

text \<open>What the two parsing libraries hand to the code. A \<open>scalar_event\<close> is the
  accumulator's \<^verbatim>\<open>ScalarEvent(wall_time, step, value)\<close>; an \<open>accumulator\<close> is a
  reloaded \<^verbatim>\<open>EventAccumulator\<close>, seen through \<^verbatim>\<open>Tags().get('scalars', [])\<close> and
  \<^verbatim>\<open>Scalars(tag)\<close>. An \<open>event\<close> is one record of \<^verbatim>\<open>summary_iterator\<close>:
  \<open>e_summary\<close> is \<open>None\<close> when the record has no \<^verbatim>\<open>summary\<close> attribute or it is
  \<^verbatim>\<open>None\<close>, and otherwise the list \<^verbatim>\<open>e.summary.value\<close>; \<open>e_step\<close> and
  \<open>e_wall_time\<close> are \<^verbatim>\<open>getattr(e, ..., None)\<close>. For a summary entry,
  \<open>v_simple_value\<close> is \<open>None\<close> when \<^verbatim>\<open>hasattr(v, "simple_value")\<close> is false and
  \<open>Some x\<close> when the attribute holds \<open>x\<close>; \<open>v_scalar\<close> says that the entry was
  recorded as a scalar, which is what the accumulator files under \<^verbatim>\<open>scalars\<close>. An
  entry of another kind (a histogram, an image, a tensor) is a protocol buffer message
  of the same class: it has the attribute \<^verbatim>\<open>simple_value\<close> too, holding the default
  0.0.\<close>

record scalar_event =
  ev_wall_time :: "real option"
  ev_step :: "int option"
  ev_value :: "pyfloat option"

record accumulator =
  Tags_scalars :: "string list"
  Scalars :: "string \<Rightarrow> scalar_event list"

record summary_value =
  v_tag :: "string option"
  v_simple_value :: "pyfloat option option"
  v_scalar :: bool

record event =
  e_summary :: "summary_value list option"
  e_step :: "int option"
  e_wall_time :: "real option"

text \<open>The environment of a run: the file system as \<^verbatim>\<open>os.path\<close> and \<^verbatim>\<open>glob\<close> see
  it, which of the two libraries can be imported, and what each library does on a file
  (\<open>Inl msg\<close>: it raises an exception other than \<^verbatim>\<open>ImportError\<close> with message
  \<open>msg\<close>). \<open>listdir\<close> is the listing glob reads (empty where the directory cannot be
  read); \<open>glob_dirs\<close> is glob's expansion of a directory name that itself holds a
  metacharacter, which the standard library computes by pattern matching.\<close>

record env =
  isdir :: "path \<Rightarrow> bool"
  isfile :: "path \<Rightarrow> bool"
  getmtime :: "path \<Rightarrow> real"
  listdir :: "path \<Rightarrow> string list"
  glob_dirs :: "path \<Rightarrow> path list"
  tensorboard_installed :: bool
  tensorflow_installed :: bool
  Reload :: "path \<Rightarrow> string + accumulator"
  summary_iterator :: "path \<Rightarrow> string + event list"

section \<open>Paths and glob\<close>

text \<open>\<^verbatim>\<open>os.path.join(a, b)\<close>, \<^verbatim>\<open>os.path.split\<close> and \<^verbatim>\<open>os.path.basename\<close> of
  \<^verbatim>\<open>posixpath\<close>, and \<^verbatim>\<open>s.rstrip('/')\<close>.\<close>

definition startswith_sep :: "string \<Rightarrow> bool" where
  "startswith_sep b = (case b of [] \<Rightarrow> False | c # _ \<Rightarrow> c = CHR ''/'')"

definition endswith_sep :: "string \<Rightarrow> bool" where
  "endswith_sep a = (case rev a of [] \<Rightarrow> False | c # _ \<Rightarrow> c = CHR ''/'')"

definition join :: "path \<Rightarrow> string \<Rightarrow> path" where
  "join a b =
     (if startswith_sep b then b
      else if a = [] \<or> endswith_sep a then a @ b
      else a @ ''/'' @ b)"

definition rstrip_sep :: "string \<Rightarrow> string" where
  "rstrip_sep s = rev (dropWhile (\<lambda>c. c = CHR ''/'') (rev s))"

definition basename :: "path \<Rightarrow> string" where
  "basename p = rev (takeWhile (\<lambda>c. c \<noteq> CHR ''/'') (rev p))"

definition split_path :: "path \<Rightarrow> path \<times> string" where
  "split_path p =
     (let head = rev (dropWhile (\<lambda>c. c \<noteq> CHR ''/'') (rev p)) in
      (if head \<noteq> [] \<and> \<not> list_all (\<lambda>c. c = CHR ''/'') head then rstrip_sep head else head,
       basename p))"

text \<open>\<^verbatim>\<open>glob.has_magic\<close>: the string holds one of \<^verbatim>\<open>* ? [\<close>.\<close>

definition has_magic :: "string \<Rightarrow> bool" where
  "has_magic s = list_ex (\<lambda>c. c = CHR ''*'' \<or> c = CHR ''?'' \<or> c = CHR ''['') s"

definition ishidden :: "string \<Rightarrow> bool" where
  "ishidden s = (case s of [] \<Rightarrow> False | c # _ \<Rightarrow> c = CHR ''.'')"

text \<open>\<^verbatim>\<open>fnmatch\<close> for patterns built from literal characters, \<^verbatim>\<open>*\<close> and
  \<^verbatim>\<open>?\<close> (the only pattern the code uses is \<^verbatim>\<open>events.out.tfevents.*\<close>).\<close>

fun fnmatch :: "string \<Rightarrow> string \<Rightarrow> bool" where
  "fnmatch [] [] = True"
| "fnmatch (c # cs) [] = False"
| "fnmatch [] (p # ps) = (p = CHR ''*'' \<and> fnmatch [] ps)"
| "fnmatch (c # cs) (p # ps) =
     (if p = CHR ''*'' then fnmatch (c # cs) ps \<or> fnmatch cs (p # ps)
      else (p = CHR ''?'' \<or> p = c) \<and> fnmatch cs ps)"

text \<open>\<^verbatim>\<open>glob._glob1\<close>: the names of a directory that match the pattern, hidden
  names left out unless the pattern is hidden.\<close>

definition glob1 :: "env \<Rightarrow> path \<Rightarrow> string \<Rightarrow> string list" where
  "glob1 env dirname pattern =
     (let names = listdir env dirname;
          names = (if \<not> ishidden pattern then filter (\<lambda>x. \<not> ishidden x) names else names)
      in filter (\<lambda>n. fnmatch n pattern) names)"

text \<open>\<^verbatim>\<open>glob.glob(pathname)\<close> for a pathname whose last component is a pattern:
  the directory part is taken as it is when it has no metacharacter and expanded
  otherwise, and every match is joined to its directory.\<close>

definition glob :: "env \<Rightarrow> path \<Rightarrow> path list" where
  "glob env pathname =
     (let (dirname, pattern) = split_path pathname in
      if dirname = [] then glob1 env dirname pattern
      else
        (let dirs = (if dirname \<noteq> pathname \<and> has_magic dirname
                     then glob_dirs env dirname else [dirname])
         in concat (map (\<lambda>d. map (join d) (glob1 env d pattern)) dirs)))"

section \<open>The locator\<close>

text \<open>\<^verbatim>\<open>_find_event_files\<close> (read_results.py, lines 10 to 18). Python's
  \<^verbatim>\<open>sorted\<close> is stable, as \<open>sort_key\<close> is.\<close>

definition find_event_files :: "env \<Rightarrow> path \<Rightarrow> exn + path list" where
  "find_event_files env path =
     (if isdir env path then
        (let files = glob env (join path ''events.out.tfevents.*'');
             files = filter (isfile env) files
         in Inr (sort_key (getmtime env) files))
      else if isfile env path then Inr [path]
      else Inl (FileNotFoundError (''Path not found: '' @ path)))"

section \<open>The two backends\<close>

text \<open>The truth value of \<^verbatim>\<open>wanted_tags\<close> (\<^verbatim>\<open>None\<close> and the empty list are
  false) and the test \<^verbatim>\<open>t in wanted_tags\<close>.\<close>

definition truthy :: "string list option \<Rightarrow> bool" where
  "truthy wanted_tags = (case wanted_tags of None \<Rightarrow> False | Some ts \<Rightarrow> ts \<noteq> [])"

definition is_in :: "string \<Rightarrow> string list option \<Rightarrow> bool" where
  "is_in t wanted_tags = (case wanted_tags of None \<Rightarrow> False | Some ts \<Rightarrow> t \<in> set ts)"

text \<open>\<^verbatim>\<open>_read_with_event_accumulator\<close> (lines 20 to 41). The import fails when
  tensorboard is not installed; \<^verbatim>\<open>Reload\<close> may raise.\<close>

definition read_with_event_accumulator ::
  "env \<Rightarrow> path \<Rightarrow> string list option \<Rightarrow> exn + (row list \<times> string list)" where
  "read_with_event_accumulator env event_path wanted_tags =
     (if \<not> tensorboard_installed env then Inl (ImportError ''No module named tensorboard'')
      else
        (case Reload env event_path of
           Inl msg \<Rightarrow> Inl (LibraryError msg)
         | Inr ea \<Rightarrow>
             (let available = Tags_scalars ea;
                  tags = (if truthy wanted_tags
                          then filter (\<lambda>t. is_in t wanted_tags) available
                          else available);
                  rows = concat (map (\<lambda>t. map (\<lambda>ev.
                           \<lparr>tag = t, step = ev_step ev, val = ev_value ev,
                            wall_time = ev_wall_time ev\<rparr>) (Scalars ea t)) tags)
              in Inr (rows, available))))"

text \<open>\<^verbatim>\<open>_read_with_tf_summary_iterator\<close> (lines 43 to 67). The loop state is the
  pair of the set \<^verbatim>\<open>available\<close>, kept as a list without repetitions, and the list
  \<^verbatim>\<open>rows\<close>. \<open>value_step\<close> is the body of the inner loop (lines 54 to 66),
  \<open>event_step\<close> the body of the outer one (lines 51 to 53).\<close>

definition value_step ::
  "string list option \<Rightarrow> event \<Rightarrow> summary_value \<Rightarrow> string list \<times> row list \<Rightarrow> string list \<times> row list" where
  "value_step wanted_tags e v st =
     (case st of (available, rows) \<Rightarrow>
       (case v_tag v of
          None \<Rightarrow> (available, rows)
        | Some t \<Rightarrow>
            (let available = List.insert t available in
             if truthy wanted_tags \<and> \<not> is_in t wanted_tags then (available, rows)
             else
               (case v_simple_value v of
                  None \<Rightarrow> (available, rows)
                | Some x \<Rightarrow>
                    (available,
                     rows @ [\<lparr>tag = t, step = e_step e, val = x, wall_time = e_wall_time e\<rparr>])))))"

definition event_step ::
  "string list option \<Rightarrow> event \<Rightarrow> string list \<times> row list \<Rightarrow> string list \<times> row list" where
  "event_step wanted_tags e st =
     (case e_summary e of
        None \<Rightarrow> st
      | Some vs \<Rightarrow> fold (value_step wanted_tags e) vs st)"

definition read_with_tf_summary_iterator ::
  "env \<Rightarrow> path \<Rightarrow> string list option \<Rightarrow> exn + (row list \<times> string list)" where
  "read_with_tf_summary_iterator env event_path wanted_tags =
     (if \<not> tensorflow_installed env then Inl (ImportError ''No module named tensorflow'')
      else
        (case summary_iterator env event_path of
           Inl msg \<Rightarrow> Inl (LibraryError msg)
         | Inr es \<Rightarrow>
             (case fold (event_step wanted_tags) es ([], []) of
                (available, rows) \<Rightarrow> Inr (rows, sort available))))"

section \<open>Backend negotiation\<close>

text \<open>\<^verbatim>\<open>read_events\<close> (lines 69 to 94). The result is the list of texts written to
  the diagnostic stream and either the exception raised or the triple
  \<^verbatim>\<open>(rows, available, backend)\<close>.\<close>

definition warn_accumulator :: "path \<Rightarrow> string \<Rightarrow> string" where
  "warn_accumulator event_path msg =
     ''[Warn] EventAccumulator failed on '' @ event_path @ '': '' @ msg @ [CHR 0x0A]
       @ ''Trying tensorflow summary_iterator...'' @ [CHR 0x0A]"

definition neither_available :: string where
  "neither_available =
     ''Neither tensorboard nor tensorflow is available. Please install one of them:'' @ [CHR 0x0A]
       @ ''  pip install tensorboard'' @ [CHR 0x0A] @ ''or'' @ [CHR 0x0A]
       @ ''  pip install tensorflow''"

definition read_events ::
  "env \<Rightarrow> path \<Rightarrow> string list option \<Rightarrow> written list \<times> (exn + (row list \<times> string list \<times> string))" where
  "read_events env event_path tags =
     (case read_with_event_accumulator env event_path tags of
        Inr (rows, available) \<Rightarrow> ([], Inr (rows, available, ''tensorboard.EventAccumulator''))
      | Inl e \<Rightarrow>
          (let err = (case e of ImportError _ \<Rightarrow> []
                      | _ \<Rightarrow> [Stderr (warn_accumulator event_path (str e))])
           in
             (case read_with_tf_summary_iterator env event_path tags of
                Inr (rows, available) \<Rightarrow> (err, Inr (rows, available, ''tensorflow.summary_iterator''))
              | Inl (ImportError _) \<Rightarrow> (err, Inl (RuntimeError neither_available))
              | Inl e2 \<Rightarrow>
                  (err, Inl (RuntimeError
                     (''Failed to parse event file with tensorflow: '' @ str e2))))))"

section \<open>The run aggregator\<close>

text \<open>\<^verbatim>\<open>compute_max_for_run\<close> (collect_max_tag.py, lines 20 to 59). The loop state
  is the triple \<^verbatim>\<open>(max_value, max_step, max_file)\<close>, all \<^verbatim>\<open>None\<close> at first.
  \<open>row_step\<close> is the body of the loop over the rows of one file (lines 43 to 49), run
  with the base name of that file; \<open>scan_files\<close> is the loop over the files (lines 35
  to 49), which also collects what is written.\<close>

type_synonym max_state = "pyfloat option \<times> int option \<times> string option"

definition row_step :: "string \<Rightarrow> row \<Rightarrow> max_state \<Rightarrow> max_state" where
  "row_step file_name r st =
     (case st of (max_value, max_step, max_file) \<Rightarrow>
       (case val r of
          None \<Rightarrow> (max_value, max_step, max_file)
        | Some v \<Rightarrow>
            if (case max_value of None \<Rightarrow> True | Some m \<Rightarrow> py_gt v m)
            then (Some v, step r, Some file_name)
            else (max_value, max_step, max_file)))"

fun scan_files :: "env \<Rightarrow> string \<Rightarrow> path list \<Rightarrow> written list \<times> max_state \<Rightarrow> written list \<times> max_state" where
  "scan_files env t [] acc = acc"
| "scan_files env t (f # fs) (out, st) =
     (case read_events env f (Some [t]) of
        (err, Inl e) \<Rightarrow>
          scan_files env t fs
            (out @ err @ [Stdout (''[Warn] Skip file due to parse error: '' @ f @ '': '' @ str e)], st)
      | (err, Inr (rows, available, backend)) \<Rightarrow>
          scan_files env t fs (out @ err, fold (row_step (basename f)) rows st))"

record run_summary =
  run :: string
  max_value :: pyfloat
  max_step :: "int option"
  max_file :: "string option"

text \<open>Lines 28 and 29: the restriction to the newest file.\<close>

definition select_files :: "bool \<Rightarrow> path list \<Rightarrow> path list" where
  "select_files latest_only event_files =
     (if latest_only \<and> length event_files > 1 then [last event_files] else event_files)"

text \<open>Lines 51 to 59: the value returned for a final loop state. The conversions
  \<^verbatim>\<open>float(max_value)\<close> and \<^verbatim>\<open>int(max_step)\<close> leave a float and an integer as
  they are.\<close>

definition summarise :: "path \<Rightarrow> max_state \<Rightarrow> run_summary option" where
  "summarise run_dir st =
     (case st of (mvalue, mstep, mfile) \<Rightarrow>
       (case mvalue of
          None \<Rightarrow> None
        | Some v \<Rightarrow>
            Some \<lparr>run = basename (rstrip_sep run_dir), max_value = v,
                  max_step = mstep, max_file = mfile\<rparr>))"

definition compute_max_for_run ::
  "env \<Rightarrow> path \<Rightarrow> string \<Rightarrow> bool \<Rightarrow> written list \<times> (exn + run_summary option)" where
  "compute_max_for_run env run_dir t latest_only =
     (case find_event_files env run_dir of
        Inl e \<Rightarrow> ([], Inl e)
      | Inr event_files \<Rightarrow>
          if event_files = [] then ([], Inr None)
          else
            (case scan_files env t (select_files latest_only event_files) ([], (None, None, None)) of
               (out, st) \<Rightarrow> (out, Inr (summarise run_dir st))))"

section \<open>The batch read of read\_results\<close>

text \<open>\<^verbatim>\<open>main\<close> of read_results.py from the call of the locator to the end of the
  loop over the files (lines 111 to 130), with the parsed arguments \<^verbatim>\<open>path\<close>,
  \<^verbatim>\<open>tags\<close> and \<^verbatim>\<open>latest\<close> as parameters. The loop state is
  \<^verbatim>\<open>(all_rows, union_tags, used_backend)\<close>; every row is kept with the base name
  stored under its key \<^verbatim>\<open>file\<close>. The loop has no exception handler: what
  \<^verbatim>\<open>read_events\<close> raises ends it. \<open>Exit n\<close> is \<^verbatim>\<open>sys.exit(n)\<close>.\<close>

type_synonym batch_state = "(row \<times> string) list \<times> string set \<times> string option"

datatype 'a outcome = Raised exn | Exit nat | Done 'a

fun read_files ::
  "env \<Rightarrow> string list option \<Rightarrow> path list \<Rightarrow> written list \<times> batch_state \<Rightarrow> written list \<times> (exn + batch_state)" where
  "read_files env tags [] (out, st) = (out, Inr st)"
| "read_files env tags (f # fs) (out, (all_rows, union_tags, used_backend)) =
     (case read_events env f tags of
        (err, Inl e) \<Rightarrow> (out @ err, Inl e)
      | (err, Inr (rows, available, backend)) \<Rightarrow>
          read_files env tags fs
            (out @ err,
             (all_rows @ map (\<lambda>r. (r, basename f)) rows,
              union_tags \<union> set available,
              (if used_backend = None \<or> used_backend = Some [] then Some backend
               else used_backend))))"

definition main_read ::
  "env \<Rightarrow> path \<Rightarrow> string list option \<Rightarrow> bool \<Rightarrow> written list \<times> batch_state outcome" where
  "main_read env path tags latest =
     (case find_event_files env path of
        Inl e \<Rightarrow> ([], Raised e)
      | Inr event_files \<Rightarrow>
          if event_files = [] then ([Stdout ''No event files found.''], Exit 1)
          else
            (case read_files env tags (select_files latest event_files) ([], ([], {}, None)) of
               (out, Inl e) \<Rightarrow> (out, Raised e)
             | (out, Inr st) \<Rightarrow> (out, Done st)))"

section \<open>Notions used to state the properties\<close>

text \<open>The records one file contributes to an aggregation: the rows \<^verbatim>\<open>read_events\<close>
  returns for the tag (none when it raises, since the file is then skipped), and of these
  the ones that carry a value, each as \<open>(value, step, base name of the file)\<close>.
  \<open>pooled\<close> lists the records of a sequence of files in processing order: file after
  file, and within a file in the order of its rows.\<close>

definition rows_of :: "env \<Rightarrow> string \<Rightarrow> path \<Rightarrow> row list" where
  "rows_of env t f =
     (case snd (read_events env f (Some [t])) of
        Inl e \<Rightarrow> []
      | Inr (rows, available, backend) \<Rightarrow> rows)"

definition valued :: "string \<Rightarrow> row list \<Rightarrow> (pyfloat \<times> int option \<times> string) list" where
  "valued file_name rows =
     List.map_filter
       (\<lambda>r. case val r of None \<Rightarrow> None | Some v \<Rightarrow> Some (v, step r, file_name)) rows"

definition pooled :: "env \<Rightarrow> string \<Rightarrow> path list \<Rightarrow> (pyfloat \<times> int option \<times> string) list" where
  "pooled env t fs = concat (map (\<lambda>f. valued (basename f) (rows_of env t f)) fs)"

text \<open>The update of the running maximum by one record that has a value.\<close>

definition keep_max :: "pyfloat \<times> int option \<times> string \<Rightarrow> max_state \<Rightarrow> max_state" where
  "keep_max x st =
     (case x of (v, s, fl) \<Rightarrow>
        if (case fst st of None \<Rightarrow> True | Some m \<Rightarrow> py_gt v m) then (Some v, s, Some fl)
        else st)"

text \<open>The directory glob lists for a path without metacharacters: the path without its
  trailing separators (a path of separators only is kept).\<close>

definition normdir :: "path \<Rightarrow> path" where
  "normdir p = (if list_all (\<lambda>c. c = CHR ''/'') p then p else rstrip_sep p)"

subsection \<open>The content of an event file as both libraries see it\<close>

text \<open>Modelled from the spec: the \<^verbatim>\<open>EventAccumulator\<close> class of tensorboard is not
  part of the repository. The spec (4.2, Variant A) says that it eagerly loads all scalar
  summaries of the file with no size cap, exposes the tag names seen, and yields for each
  tag one record per recorded point in file order. \<open>accumulate es\<close> is the accumulator
  reloaded from a file whose records are \<open>es\<close>: it keeps the tagged entries recorded as
  scalars, its tags are theirs in order of first occurrence, and the points of a tag are
  in file order.\<close>

definition entry_scalars :: "event \<Rightarrow> summary_value list \<Rightarrow> (string \<times> scalar_event) list" where
  "entry_scalars e vs =
     List.map_filter (\<lambda>v. case v_tag v of
         None \<Rightarrow> None
       | Some t \<Rightarrow>
           (case v_simple_value v of
              None \<Rightarrow> None
            | Some x \<Rightarrow>
                if v_scalar v
                then Some (t, \<lparr>ev_wall_time = e_wall_time e, ev_step = e_step e, ev_value = x\<rparr>)
                else None)) vs"

definition scalar_entries :: "event list \<Rightarrow> (string \<times> scalar_event) list" where
  "scalar_entries es =
     concat (map (\<lambda>e. case e_summary e of None \<Rightarrow> [] | Some vs \<Rightarrow> entry_scalars e vs) es)"

definition accumulate :: "event list \<Rightarrow> accumulator" where
  "accumulate es =
     \<lparr>Tags_scalars = rev (remdups (rev (map fst (scalar_entries es)))),
      Scalars = (\<lambda>t. map snd (filter (\<lambda>p. fst p = t) (scalar_entries es)))\<rparr>"

text \<open>Every tagged summary entry of the file was recorded as a scalar.\<close>

definition all_scalar :: "event list \<Rightarrow> bool" where
  "all_scalar es =
     list_all (\<lambda>e. case e_summary e of
         None \<Rightarrow> True
       | Some vs \<Rightarrow>
           list_all (\<lambda>v. v_tag v = None \<or> (v_simple_value v \<noteq> None \<and> v_scalar v)) vs) es"

text \<open>The row of a scalar point, the tag test of both backends, and the rows and tags the
  summary iterator backend collects from the entries of one record and of a file.\<close>

definition scalar_row :: "string \<times> scalar_event \<Rightarrow> row" where
  "scalar_row p =
     \<lparr>tag = fst p, step = ev_step (snd p), val = ev_value (snd p),
      wall_time = ev_wall_time (snd p)\<rparr>"

definition passes :: "string list option \<Rightarrow> string \<Rightarrow> bool" where
  "passes w t = (\<not> (truthy w \<and> \<not> is_in t w))"

definition entry_rows :: "string list option \<Rightarrow> event \<Rightarrow> summary_value list \<Rightarrow> row list" where
  "entry_rows w e vs =
     List.map_filter (\<lambda>v. case v_tag v of
         None \<Rightarrow> None
       | Some t \<Rightarrow>
           if passes w t then
             (case v_simple_value v of
                None \<Rightarrow> None
              | Some x \<Rightarrow> Some \<lparr>tag = t, step = e_step e, val = x, wall_time = e_wall_time e\<rparr>)
           else None) vs"

definition entry_tags :: "summary_value list \<Rightarrow> string list" where
  "entry_tags vs = List.map_filter v_tag vs"

definition file_tags :: "event list \<Rightarrow> string list" where
  "file_tags es =
     concat (map (\<lambda>e. case e_summary e of None \<Rightarrow> [] | Some vs \<Rightarrow> entry_tags vs) es)"

definition file_rows :: "string list option \<Rightarrow> event list \<Rightarrow> row list" where
  "file_rows w es =
     concat (map (\<lambda>e. case e_summary e of None \<Rightarrow> [] | Some vs \<Rightarrow> entry_rows w e vs) es)"

text \<open>What reading without a tag filter must return. From a reloaded accumulator: the
  rows of the given tags, tag after tag, each row a point of the tag. From the records
  of a file: one row for every entry that has a tag and carries \<^verbatim>\<open>simple_value\<close>,
  whatever the tag, in file order.\<close>

definition rows_of_tags :: "accumulator \<Rightarrow> string list \<Rightarrow> row list" where
  "rows_of_tags ea ts =
     concat (map (\<lambda>t. map (\<lambda>ev. \<lparr>tag = t, step = ev_step ev, val = ev_value ev,
                                      wall_time = ev_wall_time ev\<rparr>) (Scalars ea t)) ts)"

definition unfiltered_rows :: "event list \<Rightarrow> row list" where
  "unfiltered_rows es =
     concat (map (\<lambda>e. case e_summary e of
         None \<Rightarrow> []
       | Some vs \<Rightarrow>
           List.map_filter (\<lambda>v. case v_tag v of
               None \<Rightarrow> None
             | Some t \<Rightarrow>
                 (case v_simple_value v of
                    None \<Rightarrow> None
                  | Some x \<Rightarrow>
                      Some \<lparr>tag = t, step = e_step e, val = x, wall_time = e_wall_time e\<rparr>)) vs) es)"

section \<open>An example log tree\<close>

text \<open>A log root with five run directories, used to evaluate the code on concrete inputs.
  \<^item> \<^verbatim>\<open>runA\<close> holds two event files (the older one listed last), a text file and a
    subdirectory whose name matches the naming convention. Tag \<^verbatim>\<open>acc\<close> reaches 0.9
    in both files; the newer file also has a point of tag \<^verbatim>\<open>lr\<close> whose value is
    \<^verbatim>\<open>None\<close>.
  \<^item> \<^verbatim>\<open>runB\<close> holds no event file.
  \<^item> \<^verbatim>\<open>runC\<close> holds one event file with a scalar of tag \<^verbatim>\<open>loss\<close> and a
    histogram of tag \<^verbatim>\<open>hist\<close>.
  \<^item> \<^verbatim>\<open>runD\<close> holds two event files: the older one is rejected by both libraries,
    the newer one by the accumulator only.
  \<^item> \<^verbatim>\<open>run[1]\<close> holds one event file; there is no directory \<^verbatim>\<open>run1\<close>, so the
    pattern \<^verbatim>\<open>run[1]\<close> matches no directory.
  Both libraries are installed.\<close>

definition scalar :: "string \<Rightarrow> real \<Rightarrow> summary_value" where
  "scalar t x = \<lparr>v_tag = Some t, v_simple_value = Some (Some (Num x)), v_scalar = True\<rparr>"

definition events_a1 :: "event list" where
  "events_a1 =
     [\<lparr>e_summary = Some [scalar ''acc'' 0.1, scalar ''loss'' 2.5], e_step = Some 1, e_wall_time = Some 100\<rparr>,
      \<lparr>e_summary = None, e_step = Some 2, e_wall_time = Some 150\<rparr>,
      \<lparr>e_summary = Some [scalar ''acc'' 0.9], e_step = Some 5, e_wall_time = Some 200\<rparr>,
      \<lparr>e_summary = Some [scalar ''acc'' 0.3], e_step = Some 9, e_wall_time = Some 300\<rparr>]"

definition events_a2 :: "event list" where
  "events_a2 =
     [\<lparr>e_summary = Some [scalar ''acc'' 0.9], e_step = Some 12, e_wall_time = Some 400\<rparr>,
      \<lparr>e_summary = Some [scalar ''acc'' 0.5, \<lparr>v_tag = Some ''lr'', v_simple_value = Some None, v_scalar = True\<rparr>],
       e_step = Some 15, e_wall_time = Some 500\<rparr>]"

definition events_c1 :: "event list" where
  "events_c1 =
     [\<lparr>e_summary = Some [scalar ''loss'' 2.5,
         \<lparr>v_tag = Some ''hist'', v_simple_value = Some (Some (Num 0)), v_scalar = False\<rparr>],
       e_step = Some 1, e_wall_time = Some 100\<rparr>]"

definition events_d2 :: "event list" where
  "events_d2 = [\<lparr>e_summary = Some [scalar ''acc'' 0.7], e_step = Some 3, e_wall_time = Some 100\<rparr>]"

definition example_env :: env where
  "example_env =
     \<lparr>isdir = (\<lambda>p. p \<in> set [''runA'', ''runB'', ''runC'', ''runD'', ''run[1]'',
                               ''runA/events.out.tfevents.sub'']),
      isfile = (\<lambda>p. p \<in> set [''runA/events.out.tfevents.1'', ''runA/events.out.tfevents.2'',
                                ''runA/notes.txt'', ''runB/notes.txt'', ''runC/events.out.tfevents.1'',
                                ''runD/events.out.tfevents.1'', ''runD/events.out.tfevents.2'',
                                ''run[1]/events.out.tfevents.1'']),
      getmtime = (\<lambda>p. if p = ''runA/events.out.tfevents.1'' then 10
                       else if p = ''runA/events.out.tfevents.2'' then 20
                       else if p = ''runD/events.out.tfevents.1'' then 5
                       else if p = ''runD/events.out.tfevents.2'' then 6
                       else 1),
      listdir = (\<lambda>p. if p = ''runA'' then [''events.out.tfevents.2'', ''notes.txt'',
                                             ''events.out.tfevents.sub'', ''events.out.tfevents.1'']
                      else if p = ''runB'' then [''notes.txt'']
                      else if p = ''runC'' then [''events.out.tfevents.1'']
                      else if p = ''runD'' then [''events.out.tfevents.1'', ''events.out.tfevents.2'']
                      else if p = ''run[1]'' then [''events.out.tfevents.1'']
                      else []),
      glob_dirs = (\<lambda>p. []),
      tensorboard_installed = True,
      tensorflow_installed = True,
      Reload = (\<lambda>p. if p = ''runA/events.out.tfevents.1'' then Inr (accumulate events_a1)
                     else if p = ''runA/events.out.tfevents.2'' then Inr (accumulate events_a2)
                     else if p = ''runC/events.out.tfevents.1'' then Inr (accumulate events_c1)
                     else Inl ''truncated record''),
      summary_iterator = (\<lambda>p. if p = ''runA/events.out.tfevents.1'' then Inr events_a1
                     else if p = ''runA/events.out.tfevents.2'' then Inr events_a2
                     else if p = ''runC/events.out.tfevents.1'' then Inr events_c1
                     else if p = ''runD/events.out.tfevents.2'' then Inr events_d2
                     else Inl ''data loss'')\<rparr>"

text \<open>The same tree on a machine without tensorboard, and on one without tensorflow.\<close>

definition env_no_tensorboard :: env where
  "env_no_tensorboard = example_env\<lparr>tensorboard_installed := False\<rparr>"

definition env_no_tensorflow :: env where
  "env_no_tensorflow = example_env\<lparr>tensorflow_installed := False\<rparr>"

text \<open>A second log root with three run directories, both libraries installed.
  \<^item> \<^verbatim>\<open>runN\<close> holds one event file whose tag \<^verbatim>\<open>acc\<close> has the values NaN at
    step 1, 1.0 at step 2 and 7.0 at step 3.
  \<^item> \<^verbatim>\<open>run[1]\<close> exists and is empty.
  \<^item> \<^verbatim>\<open>run1\<close> holds one event file, with the records of the older file of
    \<^verbatim>\<open>runA\<close>. The pattern \<^verbatim>\<open>run[1]\<close> matches the directory \<^verbatim>\<open>run1\<close> and no
    other.\<close>

definition events_n1 :: "event list" where
  "events_n1 =
     [\<lparr>e_summary = Some [\<lparr>v_tag = Some ''acc'', v_simple_value = Some (Some NaN), v_scalar = True\<rparr>],
       e_step = Some 1, e_wall_time = Some 100\<rparr>,
      \<lparr>e_summary = Some [scalar ''acc'' 1.0], e_step = Some 2, e_wall_time = Some 200\<rparr>,
      \<lparr>e_summary = Some [scalar ''acc'' 7.0], e_step = Some 3, e_wall_time = Some 300\<rparr>]"

definition example_env2 :: env where
  "example_env2 =
     \<lparr>isdir = (\<lambda>p. p \<in> set [''runN'', ''run[1]'', ''run1'']),
      isfile = (\<lambda>p. p \<in> set [''runN/events.out.tfevents.1'', ''run1/events.out.tfevents.1'']),
      getmtime = (\<lambda>p. 1),
      listdir = (\<lambda>p. if p = ''runN'' then [''events.out.tfevents.1'']
                      else if p = ''run1'' then [''events.out.tfevents.1'']
                      else []),
      glob_dirs = (\<lambda>p. if p = ''run[1]'' then [''run1''] else []),
      tensorboard_installed = True,
      tensorflow_installed = True,
      Reload = (\<lambda>p. if p = ''runN/events.out.tfevents.1'' then Inr (accumulate events_n1)
                     else if p = ''run1/events.out.tfevents.1'' then Inr (accumulate events_a1)
                     else Inl ''truncated record''),
      summary_iterator = (\<lambda>p. if p = ''runN/events.out.tfevents.1'' then Inr events_n1
                     else if p = ''run1/events.out.tfevents.1'' then Inr events_a1
                     else Inl ''data loss'')\<rparr>"

section \<open>What the two backends return\<close>

lemma fold_value_step:
  "fold (value_step w e) vs (av, rows) = (av', rows') \<Longrightarrow>
     set av' = set av \<union> set (entry_tags vs) \<and> rows' = rows @ entry_rows w e vs"
proof (induction vs arbitrary: av rows)
  case Nil
  then show ?case by (simp add: entry_tags_def entry_rows_def)
next
  case (Cons v vs)
  obtain av1 rows1 where s1: "value_step w e v (av, rows) = (av1, rows1)"
    by (cases "value_step w e v (av, rows)")
  have one: "set av1 = set av \<union> set (entry_tags [v]) \<and> rows1 = rows @ entry_rows w e [v]"
    using s1
    by (auto simp: value_step_def entry_tags_def entry_rows_def passes_def Let_def
        split: option.splits if_splits)
  from Cons.prems s1 have "fold (value_step w e) vs (av1, rows1) = (av', rows')" by simp
  from Cons.IH[OF this] one show ?case
    by (auto simp: entry_tags_def entry_rows_def split: option.splits)
qed

lemma fold_event_step:
  "fold (event_step w) es (av, rows) = (av', rows') \<Longrightarrow>
     set av' = set av \<union> set (file_tags es) \<and> rows' = rows @ file_rows w es"
proof (induction es arbitrary: av rows)
  case Nil
  then show ?case by (simp add: file_tags_def file_rows_def)
next
  case (Cons e es)
  obtain av1 rows1 where s1: "event_step w e (av, rows) = (av1, rows1)"
    by (cases "event_step w e (av, rows)")
  have one: "set av1 = set av \<union> set (file_tags [e]) \<and> rows1 = rows @ file_rows w [e]"
  proof (cases "e_summary e")
    case None
    then show ?thesis using s1 by (simp add: event_step_def file_tags_def file_rows_def)
  next
    case (Some vs)
    then show ?thesis using s1 fold_value_step[of w e vs av rows av1 rows1]
      by (simp add: event_step_def file_tags_def file_rows_def)
  qed
  from Cons.prems s1 have "fold (event_step w) es (av1, rows1) = (av', rows')" by simp
  from Cons.IH[OF this] one show ?case
    by (auto simp: file_tags_def file_rows_def)
qed

lemma tf_result:
  assumes "tensorflow_installed env" and "summary_iterator env f = Inr es"
  shows "\<exists>av. read_with_tf_summary_iterator env f w = Inr (file_rows w es, av)
     \<and> set av = set (file_tags es)"
proof -
  obtain av rows where fo: "fold (event_step w) es ([], []) = (av, rows)"
    by (cases "fold (event_step w) es ([], [])")
  from fold_event_step[OF fo] have "set av = set (file_tags es)" and "rows = file_rows w es"
    by auto
  then show ?thesis using assms fo by (simp add: read_with_tf_summary_iterator_def)
qed

lemma ea_result:
  assumes "tensorboard_installed env" and "Reload env f = Inr (accumulate es)"
  shows "\<exists>rows. read_with_event_accumulator env f w = Inr (rows, Tags_scalars (accumulate es))
     \<and> set rows = scalar_row ` {p \<in> set (scalar_entries es). passes w (fst p)}"
proof -
  let ?mk = "\<lambda>t ev. \<lparr>tag = t, step = ev_step ev, val = ev_value ev, wall_time = ev_wall_time ev\<rparr>"
  let ?tags = "if truthy w then filter (\<lambda>t. is_in t w) (Tags_scalars (accumulate es))
               else Tags_scalars (accumulate es)"
  let ?rows = "concat (map (\<lambda>t. map (?mk t) (Scalars (accumulate es) t)) ?tags)"
  have r: "read_with_event_accumulator env f w = Inr (?rows, Tags_scalars (accumulate es))"
    using assms by (simp add: read_with_event_accumulator_def Let_def)
  have tg: "set ?tags = {t. t \<in> fst ` set (scalar_entries es) \<and> passes w t}"
    by (auto simp: accumulate_def passes_def)
  have sc: "?mk t ` set (Scalars (accumulate es) t) =
            scalar_row ` {p \<in> set (scalar_entries es). fst p = t}" for t
    by (auto simp: accumulate_def scalar_row_def image_iff)
  have u: "set ?rows = (\<Union>t \<in> set ?tags. ?mk t ` set (Scalars (accumulate es) t))"
    by simp
  have eq: "set ?rows = scalar_row ` {p \<in> set (scalar_entries es). passes w (fst p)}"
    unfolding u tg sc by auto
  show ?thesis
    by (rule exI[of _ ?rows]) (simp only: r eq simp_thms)
qed

lemma entry_rows_superset:
  "set (map scalar_row (filter (\<lambda>p. passes w (fst p)) (entry_scalars e vs)))
     \<subseteq> set (entry_rows w e vs)"
  by (induction vs)
     (auto simp: entry_rows_def entry_scalars_def scalar_row_def split: option.splits)

lemma entry_rows_scalars:
  "list_all (\<lambda>v. v_tag v = None \<or> (v_simple_value v \<noteq> None \<and> v_scalar v)) vs \<Longrightarrow>
     entry_rows w e vs = map scalar_row (filter (\<lambda>p. passes w (fst p)) (entry_scalars e vs))"
  by (induction vs)
     (auto simp: entry_rows_def entry_scalars_def scalar_row_def split: option.splits)

lemma entry_tags_subset: "set (map fst (entry_scalars e vs)) \<subseteq> set (entry_tags vs)"
  by (induction vs) (auto simp: entry_tags_def entry_scalars_def split: option.splits)

lemma entry_tags_all_scalar:
  "list_all (\<lambda>v. v_tag v = None \<or> (v_simple_value v \<noteq> None \<and> v_scalar v)) vs \<Longrightarrow>
     map fst (entry_scalars e vs) = entry_tags vs"
  by (induction vs) (auto simp: entry_tags_def entry_scalars_def split: option.splits)

lemma file_rows_superset:
  "set (map scalar_row (filter (\<lambda>p. passes w (fst p)) (scalar_entries es)))
     \<subseteq> set (file_rows w es)"
proof (induction es)
  case Nil
  show ?case by (simp add: scalar_entries_def file_rows_def)
next
  case (Cons e es)
  have ih: "set (map scalar_row (filter (\<lambda>p. passes w (fst p)) (scalar_entries es)))
            \<subseteq> set (file_rows w es)" by (rule Cons.IH)
  show ?case
  proof (cases "e_summary e")
    case None
    then show ?thesis using ih by (simp add: scalar_entries_def file_rows_def)
  next
    case (Some vs)
    then show ?thesis using ih entry_rows_superset[of w e vs]
      by (auto simp: scalar_entries_def file_rows_def)
  qed
qed

lemma file_rows_scalars:
  "all_scalar es \<Longrightarrow>
     file_rows w es = map scalar_row (filter (\<lambda>p. passes w (fst p)) (scalar_entries es))"
proof (induction es)
  case Nil
  show ?case by (simp add: scalar_entries_def file_rows_def)
next
  case (Cons e es)
  have ih: "file_rows w es = map scalar_row (filter (\<lambda>p. passes w (fst p)) (scalar_entries es))"
    using Cons by (simp add: all_scalar_def)
  show ?case
  proof (cases "e_summary e")
    case None
    then show ?thesis using ih by (simp add: scalar_entries_def file_rows_def)
  next
    case (Some vs)
    have "list_all (\<lambda>v. v_tag v = None \<or> (v_simple_value v \<noteq> None \<and> v_scalar v)) vs"
      using Cons.prems Some by (simp add: all_scalar_def)
    from entry_rows_scalars[OF this, of w e] Some ih show ?thesis
      by (simp add: scalar_entries_def file_rows_def)
  qed
qed

lemma tags_subset: "set (map fst (scalar_entries es)) \<subseteq> set (file_tags es)"
proof (induction es)
  case Nil
  show ?case by (simp add: scalar_entries_def file_tags_def)
next
  case (Cons e es)
  have ih: "set (map fst (scalar_entries es)) \<subseteq> set (file_tags es)" by (rule Cons.IH)
  show ?case
  proof (cases "e_summary e")
    case None
    then show ?thesis using ih by (simp add: scalar_entries_def file_tags_def)
  next
    case (Some vs)
    then show ?thesis using ih entry_tags_subset[of e vs]
      by (auto simp: scalar_entries_def file_tags_def)
  qed
qed

lemma tags_agree: "all_scalar es \<Longrightarrow> map fst (scalar_entries es) = file_tags es"
proof (induction es)
  case Nil
  show ?case by (simp add: scalar_entries_def file_tags_def)
next
  case (Cons e es)
  have ih: "map fst (scalar_entries es) = file_tags es"
    using Cons by (simp add: all_scalar_def)
  show ?case
  proof (cases "e_summary e")
    case None
    then show ?thesis using ih by (simp add: scalar_entries_def file_tags_def)
  next
    case (Some vs)
    have "list_all (\<lambda>v. v_tag v = None \<or> (v_simple_value v \<noteq> None \<and> v_scalar v)) vs"
      using Cons.prems Some by (simp add: all_scalar_def)
    from entry_tags_all_scalar[OF this, of e] Some ih show ?thesis
      by (simp add: scalar_entries_def file_tags_def)
  qed
qed

text \<open>On a file whose tagged entries were all recorded as scalars the two backends
  return the same set of rows and the same set of tags, for every tag filter; on any
  file the accumulator backend returns a subset of what the summary iterator backend
  returns.\<close>

lemma backends_agree_on_scalar_files:
  assumes "tensorboard_installed env" and "tensorflow_installed env"
    and "summary_iterator env f = Inr es" and "Reload env f = Inr (accumulate es)"
  shows "\<exists>rowsA availableA rowsB availableB.
      read_with_event_accumulator env f w = Inr (rowsA, availableA)
    \<and> read_with_tf_summary_iterator env f w = Inr (rowsB, availableB)
    \<and> set rowsA \<subseteq> set rowsB
    \<and> set availableA \<subseteq> set availableB
    \<and> (all_scalar es \<longrightarrow> set rowsA = set rowsB \<and> set availableA = set availableB)"
proof -
  from ea_result[OF assms(1,4), of w] obtain rowsA where
    a: "read_with_event_accumulator env f w = Inr (rowsA, Tags_scalars (accumulate es))"
    and ra: "set rowsA = scalar_row ` {p \<in> set (scalar_entries es). passes w (fst p)}"
    by blast
  from tf_result[OF assms(2,3), of w] obtain av where
    b: "read_with_tf_summary_iterator env f w = Inr (file_rows w es, av)"
    and tb: "set av = set (file_tags es)" by blast
  have ta: "set (Tags_scalars (accumulate es)) = set (map fst (scalar_entries es))"
    by (simp add: accumulate_def)
  have rs: "set rowsA \<subseteq> set (file_rows w es)"
    using file_rows_superset[of w es] ra by simp
  have rb: "all_scalar es \<Longrightarrow> set rowsA = set (file_rows w es)"
    using file_rows_scalars[of es w] ra by simp
  have tc: "all_scalar es \<Longrightarrow> set (map fst (scalar_entries es)) = set (file_tags es)"
    using tags_agree[of es] by simp
  show ?thesis
    unfolding a b using rs rb tb ta tags_subset[of es] tc by simp
qed


lemma entry_rows_tag: "r \<in> set (entry_rows w e vs) \<Longrightarrow> passes w (tag r)"
  by (induction vs) (auto simp: entry_rows_def split: option.splits if_splits)

lemma file_rows_tag: "r \<in> set (file_rows w es) \<Longrightarrow> passes w (tag r)"
  by (auto simp: file_rows_def split: option.splits dest: entry_rows_tag)

lemma file_rows_unfiltered:
  assumes "\<not> truthy w"
  shows "file_rows w es = unfiltered_rows es"
proof -
  have p: "passes w t" for t using assms by (simp add: passes_def)
  have "entry_rows w e vs =
      List.map_filter (\<lambda>v. case v_tag v of
          None \<Rightarrow> None
        | Some t \<Rightarrow>
            (case v_simple_value v of
               None \<Rightarrow> None
             | Some x \<Rightarrow>
                 Some \<lparr>tag = t, step = e_step e, val = x, wall_time = e_wall_time e\<rparr>)) vs"
    for e vs
    by (induction vs) (simp_all add: entry_rows_def p split: option.split)
  then have "(case e_summary e of None \<Rightarrow> [] | Some vs \<Rightarrow> entry_rows w e vs) =
      (case e_summary e of None \<Rightarrow> [] | Some vs \<Rightarrow>
         List.map_filter (\<lambda>v. case v_tag v of
             None \<Rightarrow> None
           | Some t \<Rightarrow>
               (case v_simple_value v of
                  None \<Rightarrow> None
                | Some x \<Rightarrow>
                    Some \<lparr>tag = t, step = e_step e, val = x, wall_time = e_wall_time e\<rparr>)) vs)"
    for e by (simp split: option.split)
  then show ?thesis unfolding file_rows_def unfiltered_rows_def by simp
qed

text \<open>Every row \<^verbatim>\<open>read_events\<close> returns for the one-element filter \<^verbatim>\<open>[t]\<close>
  carries the tag \<open>t\<close>.\<close>

lemma read_events_rows_tag:
  assumes "snd (read_events env f (Some [t])) = Inr (rows, available, backend)"
    and "r \<in> set rows"
  shows "tag r = t"
proof -
  have p: "passes (Some [t]) u \<Longrightarrow> u = t" for u
    by (simp add: passes_def truthy_def is_in_def)
  have a: "tag r = t"
    if "read_with_event_accumulator env f (Some [t]) = Inr (rows, av)" for av
    using that assms(2)
    by (auto simp: read_with_event_accumulator_def Let_def truthy_def is_in_def
        split: if_splits sum.splits)
  have b: "tag r = t"
    if h: "read_with_tf_summary_iterator env f (Some [t]) = Inr (rows, av)" for av
  proof -
    from h obtain es where i: "tensorflow_installed env" and s: "summary_iterator env f = Inr es"
      by (auto simp: read_with_tf_summary_iterator_def split: if_splits sum.splits)
    from tf_result[OF i s, of "Some [t]"] h have "rows = file_rows (Some [t]) es" by auto
    with assms(2) file_rows_tag[of r "Some [t]" es] p show ?thesis by blast
  qed
  show ?thesis
  proof (cases "read_with_event_accumulator env f (Some [t])")
    case (Inr x)
    obtain rs av where x: "x = (rs, av)" by (cases x)
    from assms(1) Inr x have "rs = rows" by (simp add: read_events_def)
    with a Inr x show ?thesis by simp
  next
    case (Inl e1)
    show ?thesis
    proof (cases "read_with_tf_summary_iterator env f (Some [t])")
      case (Inr x)
      obtain rs av where x: "x = (rs, av)" by (cases x)
      from assms(1) Inl Inr x have "rs = rows" by (simp add: read_events_def Let_def)
      with b Inr x show ?thesis by simp
    next
      case (Inl e2)
      with assms(1) \<open>read_with_event_accumulator env f (Some [t]) = Inl e1\<close>
      show ?thesis by (cases e2) (simp_all add: read_events_def Let_def)
    qed
  qed
qed

section \<open>Empty tag filters\<close>

lemma value_step_empty: "value_step (Some []) e v st = value_step None e v st"
  by (simp add: value_step_def truthy_def Let_def split: prod.split option.split)

lemma event_step_empty: "event_step (Some []) = event_step None"
  by (rule ext)+ (simp add: event_step_def value_step_empty[abs_def] cong: option.case_cong)

text \<open>Claim C9. For every event file, an empty list of wanted tags behaves as no tag
  filter at all, in \<^verbatim>\<open>read_events\<close> and in either backend: the empty list is false
  in Python, so both backends take the branch without a filter. And what is returned is
  not empty-handed: the accumulator backend returns the points of every tag the
  accumulator lists, with all those tags; the summary iterator backend returns a row for
  every tagged entry that carries \<^verbatim>\<open>simple_value\<close>, whatever its tag, with the tags
  of all tagged entries; \<^verbatim>\<open>read_events\<close> returns the one or the other.\<close>

theorem empty_filter_is_no_filter:
  "read_with_event_accumulator env f (Some []) = read_with_event_accumulator env f None
   \<and> read_with_tf_summary_iterator env f (Some []) = read_with_tf_summary_iterator env f None
   \<and> read_events env f (Some []) = read_events env f None
   \<and> (tensorboard_installed env \<and> Reload env f = Inr ea \<longrightarrow>
        read_with_event_accumulator env f (Some []) =
          Inr (rows_of_tags ea (Tags_scalars ea), Tags_scalars ea)
        \<and> read_events env f (Some []) =
          ([], Inr (rows_of_tags ea (Tags_scalars ea), Tags_scalars ea,
                    ''tensorboard.EventAccumulator'')))
   \<and> (tensorflow_installed env \<and> summary_iterator env f = Inr es \<longrightarrow>
        (\<exists>available. set available = set (file_tags es)
           \<and> read_with_tf_summary_iterator env f (Some []) = Inr (unfiltered_rows es, available)
           \<and> (\<not> tensorboard_installed env \<longrightarrow>
                read_events env f (Some []) =
                  ([], Inr (unfiltered_rows es, available, ''tensorflow.summary_iterator'')))))"
proof -
  have a: "read_with_event_accumulator env f (Some []) = read_with_event_accumulator env f None"
    by (simp add: read_with_event_accumulator_def truthy_def Let_def split: sum.split)
  have b: "read_with_tf_summary_iterator env f (Some []) = read_with_tf_summary_iterator env f None"
    unfolding read_with_tf_summary_iterator_def event_step_empty ..
  have c: "read_events env f (Some []) = read_events env f None"
    unfolding read_events_def a b by simp
  have d: "read_with_event_accumulator env f (Some []) =
          Inr (rows_of_tags ea (Tags_scalars ea), Tags_scalars ea)
        \<and> read_events env f (Some []) =
          ([], Inr (rows_of_tags ea (Tags_scalars ea), Tags_scalars ea,
                    ''tensorboard.EventAccumulator''))"
    if "tensorboard_installed env" and "Reload env f = Inr ea"
  proof -
    have "read_with_event_accumulator env f (Some []) =
          Inr (rows_of_tags ea (Tags_scalars ea), Tags_scalars ea)"
      using that by (simp add: read_with_event_accumulator_def truthy_def Let_def rows_of_tags_def)
    then show ?thesis by (simp add: read_events_def)
  qed
  have e: "\<exists>available. set available = set (file_tags es)
           \<and> read_with_tf_summary_iterator env f (Some []) = Inr (unfiltered_rows es, available)
           \<and> (\<not> tensorboard_installed env \<longrightarrow>
                read_events env f (Some []) =
                  ([], Inr (unfiltered_rows es, available, ''tensorflow.summary_iterator'')))"
    if i: "tensorflow_installed env" and s: "summary_iterator env f = Inr es"
  proof -
    from tf_result[OF i s, of "Some []"] obtain av where
      r: "read_with_tf_summary_iterator env f (Some []) = Inr (file_rows (Some []) es, av)"
      and t: "set av = set (file_tags es)" by blast
    have u: "file_rows (Some []) es = unfiltered_rows es"
      by (rule file_rows_unfiltered) (simp add: truthy_def)
    have "\<not> tensorboard_installed env \<longrightarrow>
                read_events env f (Some []) =
                  ([], Inr (unfiltered_rows es, av, ''tensorflow.summary_iterator''))"
      using r u by (simp add: read_events_def read_with_event_accumulator_def)
    with r t u show ?thesis by auto
  qed
  from a b c d e show ?thesis by blast
qed

theorem empty_filter_is_no_filter_witness:
  "read_events example_env ''runA/events.out.tfevents.1'' (Some []) =
     ([], Inr ([\<lparr>tag = ''acc'', step = Some 1, val = Some (Num 0.1), wall_time = Some 100\<rparr>,
                \<lparr>tag = ''acc'', step = Some 5, val = Some (Num 0.9), wall_time = Some 200\<rparr>,
                \<lparr>tag = ''acc'', step = Some 9, val = Some (Num 0.3), wall_time = Some 300\<rparr>,
                \<lparr>tag = ''loss'', step = Some 1, val = Some (Num 2.5), wall_time = Some 100\<rparr>],
               [''acc'', ''loss''], ''tensorboard.EventAccumulator''))
   \<and> read_with_tf_summary_iterator env_no_tensorboard ''runA/events.out.tfevents.1'' (Some []) =
       Inr ([\<lparr>tag = ''acc'', step = Some 1, val = Some (Num 0.1), wall_time = Some 100\<rparr>,
             \<lparr>tag = ''loss'', step = Some 1, val = Some (Num 2.5), wall_time = Some 100\<rparr>,
             \<lparr>tag = ''acc'', step = Some 5, val = Some (Num 0.9), wall_time = Some 200\<rparr>,
             \<lparr>tag = ''acc'', step = Some 9, val = Some (Num 0.3), wall_time = Some 300\<rparr>],
            [''acc'', ''loss''])
   \<and> (\<exists>available. set available = {''acc'', ''loss''}
        \<and> read_events env_no_tensorboard ''runA/events.out.tfevents.1'' (Some []) =
       ([], Inr ([\<lparr>tag = ''acc'', step = Some 1, val = Some (Num 0.1), wall_time = Some 100\<rparr>,
                  \<lparr>tag = ''loss'', step = Some 1, val = Some (Num 2.5), wall_time = Some 100\<rparr>,
                  \<lparr>tag = ''acc'', step = Some 5, val = Some (Num 0.9), wall_time = Some 200\<rparr>,
                  \<lparr>tag = ''acc'', step = Some 9, val = Some (Num 0.3), wall_time = Some 300\<rparr>],
                 available, ''tensorflow.summary_iterator'')))"
proof -
  let ?f = "''runA/events.out.tfevents.1''"
  let ?rb = "[\<lparr>tag = ''acc'', step = Some 1, val = Some (Num 0.1), wall_time = Some 100\<rparr>,
             \<lparr>tag = ''loss'', step = Some 1, val = Some (Num 2.5), wall_time = Some 100\<rparr>,
             \<lparr>tag = ''acc'', step = Some 5, val = Some (Num 0.9), wall_time = Some 200\<rparr>,
             \<lparr>tag = ''acc'', step = Some 9, val = Some (Num 0.3), wall_time = Some (300::real)\<rparr>]"
  have a1: "tensorboard_installed example_env" by code_simp
  have a2: "Reload example_env ?f = Inr (accumulate events_a1)" by (simp add: example_env_def)
  have a3: "rows_of_tags (accumulate events_a1) [''acc'', ''loss''] =
     [\<lparr>tag = ''acc'', step = Some 1, val = Some (Num 0.1), wall_time = Some 100\<rparr>,
      \<lparr>tag = ''acc'', step = Some 5, val = Some (Num 0.9), wall_time = Some 200\<rparr>,
      \<lparr>tag = ''acc'', step = Some 9, val = Some (Num 0.3), wall_time = Some 300\<rparr>,
      \<lparr>tag = ''loss'', step = Some 1, val = Some (Num 2.5), wall_time = Some 100\<rparr>]"
    and a4: "Tags_scalars (accumulate events_a1) = [''acc'', ''loss'']" by code_simp+
  have b1: "tensorflow_installed env_no_tensorboard"
    and b2: "\<not> tensorboard_installed env_no_tensorboard" by code_simp+
  have b3: "summary_iterator env_no_tensorboard ?f = Inr events_a1"
    by (simp add: env_no_tensorboard_def example_env_def)
  have b4: "unfiltered_rows events_a1 = ?rb"
    and b5: "set (file_tags events_a1) = {''acc'', ''loss''}" by code_simp+
  have b6: "read_with_tf_summary_iterator env_no_tensorboard ?f None = Inr (?rb, [''acc'', ''loss''])"
    by code_simp
  note ta = empty_filter_is_no_filter[of example_env ?f "accumulate events_a1",
      THEN conjunct2, THEN conjunct2, THEN conjunct2, THEN conjunct1, THEN mp,
      OF conjI[OF a1 a2], THEN conjunct2]
  note tb = empty_filter_is_no_filter[of env_no_tensorboard ?f _ events_a1,
      THEN conjunct2, THEN conjunct2, THEN conjunct2, THEN conjunct2, THEN mp,
      OF conjI[OF b1 b3]]
  note tc = empty_filter_is_no_filter[of env_no_tensorboard ?f, THEN conjunct2, THEN conjunct1]
  have g1: "read_events example_env ?f (Some []) =
     ([], Inr ([\<lparr>tag = ''acc'', step = Some 1, val = Some (Num 0.1), wall_time = Some 100\<rparr>,
                \<lparr>tag = ''acc'', step = Some 5, val = Some (Num 0.9), wall_time = Some 200\<rparr>,
                \<lparr>tag = ''acc'', step = Some 9, val = Some (Num 0.3), wall_time = Some 300\<rparr>,
                \<lparr>tag = ''loss'', step = Some 1, val = Some (Num 2.5), wall_time = Some 100\<rparr>],
               [''acc'', ''loss''], ''tensorboard.EventAccumulator''))"
    using ta unfolding a4 a3 .
  have g2: "read_with_tf_summary_iterator env_no_tensorboard ?f (Some []) = Inr (?rb, [''acc'', ''loss''])"
    using tc unfolding b6 .
  from tb obtain available where B1: "set available = set (file_tags events_a1)"
    and B3: "\<not> tensorboard_installed env_no_tensorboard \<longrightarrow>
              read_events env_no_tensorboard ?f (Some []) =
              ([], Inr (unfiltered_rows events_a1, available, ''tensorflow.summary_iterator''))"
    by (elim exE conjE)
  have B2: "read_events env_no_tensorboard ?f (Some []) =
              ([], Inr (?rb, available, ''tensorflow.summary_iterator''))"
    using B3[THEN mp, OF b2] unfolding b4 .
  have B1': "set available = {''acc'', ''loss''}" using B1 unfolding b5 .
  have g3: "\<exists>available. set available = {''acc'', ''loss''}
        \<and> read_events env_no_tensorboard ?f (Some []) =
              ([], Inr (?rb, available, ''tensorflow.summary_iterator''))"
    by (rule exI[of _ available]) (rule conjI[OF B1' B2])
  show ?thesis by (rule conjI[OF g1 conjI[OF g2 g3]])
qed

section \<open>Backend negotiation\<close>

text \<open>The control flow of \<^verbatim>\<open>read_events\<close>. The accumulator backend is tried first:
  when it returns, its result is the result and nothing is written. When tensorboard is
  not installed, the result is that of the summary iterator backend and nothing is
  written. When tensorboard is installed but raises on this file, a warning is written
  to the diagnostic stream and the result is again that of the summary iterator
  backend.\<close>

lemma read_events_fallback:
  "(read_with_event_accumulator env f tags = Inr (rows, available) \<longrightarrow>
      read_events env f tags = ([], Inr (rows, available, ''tensorboard.EventAccumulator'')))
   \<and> (\<not> tensorboard_installed env
        \<and> read_with_tf_summary_iterator env f tags = Inr (rows, available) \<longrightarrow>
      read_events env f tags = ([], Inr (rows, available, ''tensorflow.summary_iterator'')))
   \<and> (tensorboard_installed env \<and> Reload env f = Inl msg
        \<and> read_with_tf_summary_iterator env f tags = Inr (rows, available) \<longrightarrow>
      read_events env f tags =
        ([Stderr (warn_accumulator f msg)],
         Inr (rows, available, ''tensorflow.summary_iterator'')))"
  by (simp add: read_events_def read_with_event_accumulator_def)

text \<open>Claim C3. The fallback itself works as the claim says (lemma
  \<open>read_events_fallback\<close>), but the rows it yields are those of the summary iterator
  backend, and these are not the file's scalar records when the file holds an entry of
  another kind. The event file of \<^verbatim>\<open>runC\<close> holds a scalar of tag \<^verbatim>\<open>loss\<close> and a
  histogram of tag \<^verbatim>\<open>hist\<close>; both libraries parse it. With tensorboard installed
  \<^verbatim>\<open>read_events\<close> returns the scalar row and the tag \<^verbatim>\<open>loss\<close>. Without
  tensorboard it falls through to the summary iterator backend, silently, and returns in
  addition a row of value 0.0 for the histogram and the tag \<^verbatim>\<open>hist\<close>; asked for
  the tag \<^verbatim>\<open>hist\<close> alone it returns that row, where the accumulator backend
  returns none.\<close>

theorem fallback_returns_histogram_row:
  "tensorboard_installed example_env
   \<and> read_events example_env ''runC/events.out.tfevents.1'' None =
       ([], Inr ([\<lparr>tag = ''loss'', step = Some 1, val = Some (Num 2.5), wall_time = Some 100\<rparr>],
                 [''loss''], ''tensorboard.EventAccumulator''))
   \<and> read_events example_env ''runC/events.out.tfevents.1'' (Some [''hist'']) =
       ([], Inr ([], [''loss''], ''tensorboard.EventAccumulator''))
   \<and> \<not> tensorboard_installed env_no_tensorboard
   \<and> read_events env_no_tensorboard ''runC/events.out.tfevents.1'' None =
       ([], Inr ([\<lparr>tag = ''loss'', step = Some 1, val = Some (Num 2.5), wall_time = Some 100\<rparr>,
                  \<lparr>tag = ''hist'', step = Some 1, val = Some (Num 0), wall_time = Some 100\<rparr>],
                 [''hist'', ''loss''], ''tensorflow.summary_iterator''))
   \<and> read_events env_no_tensorboard ''runC/events.out.tfevents.1'' (Some [''hist'']) =
       ([], Inr ([\<lparr>tag = ''hist'', step = Some 1, val = Some (Num 0), wall_time = Some 100\<rparr>],
                 [''hist'', ''loss''], ''tensorflow.summary_iterator''))"
  by code_simp

lemma read_events_neither_iff:
  "snd (read_events env f tags) = Inl (RuntimeError neither_available) \<longleftrightarrow>
     \<not> tensorflow_installed env
     \<and> (\<not> tensorboard_installed env \<or> (\<exists>msg. Reload env f = Inl msg))"
  by (auto simp: read_events_def read_with_event_accumulator_def
      read_with_tf_summary_iterator_def Let_def neither_available_def
      split: sum.splits prod.splits exn.splits if_splits)

lemma read_events_parse_error:
  assumes "\<not> tensorboard_installed env \<or> (\<exists>m. Reload env f = Inl m)"
    and "tensorflow_installed env" and "summary_iterator env f = Inl msg"
  shows "snd (read_events env f tags) =
           Inl (RuntimeError (''Failed to parse event file with tensorflow: '' @ msg))"
  using assms
  by (auto simp: read_events_def read_with_event_accumulator_def
      read_with_tf_summary_iterator_def Let_def split: sum.splits prod.splits exn.splits)

text \<open>Claim C4. On a machine without tensorflow where tensorboard is installed, a file
  on which the accumulator raises makes \<^verbatim>\<open>read_events\<close> write its warning and then
  fail with the error whose message says that neither tensorboard nor tensorflow is
  available, although tensorboard is.\<close>

theorem neither_available_with_tensorboard_installed:
  "tensorboard_installed env_no_tensorflow
   \<and> \<not> tensorflow_installed env_no_tensorflow
   \<and> Reload env_no_tensorflow ''runD/events.out.tfevents.2'' = Inl ''truncated record''
   \<and> read_events env_no_tensorflow ''runD/events.out.tfevents.2'' None =
       ([Stderr (warn_accumulator ''runD/events.out.tfevents.2'' ''truncated record'')],
        Inl (RuntimeError neither_available))"
proof -
  have "Reload env_no_tensorflow ''runD/events.out.tfevents.2'' = Inl ''truncated record''"
    by (simp add: env_no_tensorflow_def example_env_def)
  moreover have "tensorboard_installed env_no_tensorflow
   \<and> \<not> tensorflow_installed env_no_tensorflow
   \<and> read_events env_no_tensorflow ''runD/events.out.tfevents.2'' None =
       ([Stderr (warn_accumulator ''runD/events.out.tfevents.2'' ''truncated record'')],
        Inl (RuntimeError neither_available))"
    by code_simp
  ultimately show ?thesis by simp
qed

section \<open>The two backends compared\<close>

text \<open>Claim C5. The event file of run directory \<^verbatim>\<open>runC\<close> is well formed and is read by
  both libraries: it holds one scalar of tag \<^verbatim>\<open>loss\<close> and one histogram of tag
  \<^verbatim>\<open>hist\<close>. The accumulator backend returns the scalar row and the tag of the
  scalar. The summary iterator backend adds the tag to \<^verbatim>\<open>available\<close> before it looks
  at the kind of the entry and tests the kind with \<^verbatim>\<open>hasattr\<close>, which holds of
  every entry: it returns the histogram's tag as well, and a row of value 0.0 for
  the histogram.\<close>

theorem backends_differ_on_histogram:
  "Reload example_env ''runC/events.out.tfevents.1'' = Inr (accumulate events_c1)
   \<and> summary_iterator example_env ''runC/events.out.tfevents.1'' = Inr events_c1
   \<and> read_with_event_accumulator example_env ''runC/events.out.tfevents.1'' None =
       Inr ([\<lparr>tag = ''loss'', step = Some 1, val = Some (Num 2.5), wall_time = Some 100\<rparr>], [''loss''])
   \<and> read_with_tf_summary_iterator example_env ''runC/events.out.tfevents.1'' None =
       Inr ([\<lparr>tag = ''loss'', step = Some 1, val = Some (Num 2.5), wall_time = Some 100\<rparr>,
             \<lparr>tag = ''hist'', step = Some 1, val = Some (Num 0), wall_time = Some 100\<rparr>],
            [''hist'', ''loss''])"
proof -
  have "Reload example_env ''runC/events.out.tfevents.1'' = Inr (accumulate events_c1)
   \<and> summary_iterator example_env ''runC/events.out.tfevents.1'' = Inr events_c1"
    by (simp add: example_env_def)
  moreover have "read_with_event_accumulator example_env ''runC/events.out.tfevents.1'' None =
       Inr ([\<lparr>tag = ''loss'', step = Some 1, val = Some (Num 2.5), wall_time = Some 100\<rparr>], [''loss''])
   \<and> read_with_tf_summary_iterator example_env ''runC/events.out.tfevents.1'' None =
       Inr ([\<lparr>tag = ''loss'', step = Some 1, val = Some (Num 2.5), wall_time = Some 100\<rparr>,
             \<lparr>tag = ''hist'', step = Some 1, val = Some (Num 0), wall_time = Some 100\<rparr>],
            [''hist'', ''loss''])"
    by code_simp
  ultimately show ?thesis by simp
qed

section \<open>The locator: order of the located files\<close>

lemma sorted_last_greatest:
  "sorted (map k xs) \<Longrightarrow> x \<in> set xs \<Longrightarrow> k x \<le> k (last xs)"
proof (induction xs)
  case Nil
  then show ?case by simp
next
  case (Cons y ys)
  show ?case
  proof (cases "ys = []")
    case True
    with Cons.prems show ?thesis by simp
  next
    case False
    have l: "last ys \<in> set ys" using False by simp
    from Cons.prems Cons.IH False l show ?thesis by auto
  qed
qed

lemma find_event_files_sorted:
  "find_event_files env p = Inr fs \<Longrightarrow> sorted (map (getmtime env) fs)"
  by (auto simp: find_event_files_def Let_def split: if_splits)

lemma select_files_subset: "set (select_files latest_only fs) \<subseteq> set fs"
  by (cases fs) (auto simp: select_files_def)

section \<open>The run aggregator\<close>

lemma fold_row_step: "fold (row_step fl) rows st = fold keep_max (valued fl rows) st"
proof (induction rows arbitrary: st)
  case Nil
  show ?case by (simp add: valued_def)
next
  case (Cons r rows)
  obtain a b c where st: "st = (a, b, c)" by (cases st)
  show ?case
  proof (cases "val r")
    case None
    then show ?thesis using Cons.IH[of st]
      by (simp add: valued_def row_step_def st)
  next
    case (Some v)
    then show ?thesis using Cons.IH
      by (simp add: valued_def row_step_def keep_max_def st)
  qed
qed

lemma scan_files_state:
  "snd (scan_files env t fs (out, st)) = fold keep_max (pooled env t fs) st"
proof (induction fs arbitrary: out st)
  case Nil
  show ?case by (simp add: pooled_def)
next
  case (Cons f fs)
  obtain err res where r: "read_events env f (Some [t]) = (err, res)"
    by (cases "read_events env f (Some [t])")
  show ?case
  proof (cases res)
    case (Inl e)
    then show ?thesis using Cons.IH r
      by (simp add: pooled_def rows_of_def valued_def)
  next
    case (Inr x)
    obtain rows available backend where x: "x = (rows, available, backend)" by (cases x)
    show ?thesis using Cons.IH r Inr x
      by (simp add: pooled_def rows_of_def fold_row_step)
  qed
qed

lemma compute_max_for_run_located:
  assumes "find_event_files env run_dir = Inr files"
  shows "snd (compute_max_for_run env run_dir t latest_only) =
         Inr (summarise run_dir
                (fold keep_max (pooled env t (select_files latest_only files)) (None, None, None)))"
proof (cases "files = []")
  case True
  then show ?thesis using assms
    by (simp add: compute_max_for_run_def select_files_def pooled_def summarise_def)
next
  case False
  obtain out st where sc:
    "scan_files env t (select_files latest_only files) ([], (None, None, None)) = (out, st)"
    by (cases "scan_files env t (select_files latest_only files) ([], (None, None, None))")
  have "st = fold keep_max (pooled env t (select_files latest_only files)) (None, None, None)"
    using scan_files_state[of env t "select_files latest_only files" "[]" "(None, None, None)"] sc
    by simp
  then show ?thesis using assms False sc
    by (simp add: compute_max_for_run_def)
qed

lemma find_append_cases:
  "find P (xs @ ys) = (case find P xs of None \<Rightarrow> find P ys | Some x \<Rightarrow> Some x)"
  by (induction xs) auto

lemma py_gt_irrefl: "\<not> py_gt x x"
  by (cases x) auto

lemma py_gt_below:
  "py_gt x v \<Longrightarrow> \<not> py_gt y v \<Longrightarrow> y \<noteq> NaN \<Longrightarrow> \<not> py_gt y x \<and> y \<noteq> x"
  by (cases x; cases y; cases v) auto

text \<open>The running maximum over records none of which is NaN: the state after the loop
  holds the first record whose value no other record exceeds.\<close>

lemma fold_keep_max_first:
  "recs \<noteq> [] \<Longrightarrow> \<forall>x \<in> set recs. fst x \<noteq> NaN \<Longrightarrow>
   \<exists>v s fl. fold keep_max recs (None, None, None) = (Some v, s, Some fl)
      \<and> (\<forall>x \<in> set recs. \<not> py_gt (fst x) v)
      \<and> find (\<lambda>x. fst x = v) recs = Some (v, s, fl)"
proof (induction recs rule: rev_induct)
  case Nil
  then show ?case by simp
next
  case (snoc x recs)
  obtain xv xs xf where x: "x = (xv, xs, xf)" by (cases x)
  show ?case
  proof (cases "recs = []")
    case True
    then show ?thesis by (simp add: keep_max_def x py_gt_irrefl)
  next
    case False
    have nn: "\<forall>y \<in> set recs. fst y \<noteq> NaN" using snoc.prems(2) by simp
    from snoc.IH[OF False nn] obtain v s fl where
      st: "fold keep_max recs (None, None, None) = (Some v, s, Some fl)"
      and mx: "\<forall>y \<in> set recs. \<not> py_gt (fst y) v"
      and fi: "find (\<lambda>x. fst x = v) recs = Some (v, s, fl)" by blast
    have step: "fold keep_max (recs @ [x]) (None, None, None) =
        (if py_gt xv v then (Some xv, xs, Some xf) else (Some v, s, Some fl))"
      by (simp add: st) (simp add: keep_max_def x)
    show ?thesis
    proof (cases "py_gt xv v")
      case True
      have below: "\<forall>y \<in> set recs. \<not> py_gt (fst y) xv \<and> fst y \<noteq> xv"
        using py_gt_below[OF True] mx nn by blast
      then have "find (\<lambda>y. fst y = xv) recs = None" by (force simp add: find_None_iff)
      then show ?thesis using True below unfolding step
        by (simp add: x find_append_cases py_gt_irrefl)
    next
      case False
      then show ?thesis using mx fi unfolding step
        by (simp add: x find_append_cases)
    qed
  qed
qed

text \<open>What holds of the maximum when no record of the tag has the value NaN. Let
  \<open>files\<close> be the files the locator returns for the run directory, and suppose the
  records pooled over them for the tag are not empty. Then \<^verbatim>\<open>compute_max_for_run\<close>
  (with \<^verbatim>\<open>latest_only\<close> false) returns a summary whose \<^verbatim>\<open>max_value\<close> no pooled
  record exceeds and whose value, step and file are those of the first pooled record
  with this value.\<close>

lemma compute_max_is_first_maximum:
  assumes "find_event_files env run_dir = Inr files"
    and "pooled env t files \<noteq> []"
    and "\<forall>x \<in> set (pooled env t files). fst x \<noteq> NaN"
  shows "sorted (map (getmtime env) files)
    \<and> (\<exists>v s fl.
        snd (compute_max_for_run env run_dir t False) =
          Inr (Some \<lparr>run = basename (rstrip_sep run_dir), max_value = v,
                     max_step = s, max_file = Some fl\<rparr>)
        \<and> (\<forall>x \<in> set (pooled env t files). \<not> py_gt (fst x) v)
        \<and> find (\<lambda>x. fst x = v) (pooled env t files) = Some (v, s, fl))"
proof -
  from fold_keep_max_first[OF assms(2,3)] obtain v s fl where
    st: "fold keep_max (pooled env t files) (None, None, None) = (Some v, s, Some fl)"
    and v: "\<forall>x \<in> set (pooled env t files). \<not> py_gt (fst x) v"
    and fi: "find (\<lambda>x. fst x = v) (pooled env t files) = Some (v, s, fl)" by blast
  have "snd (compute_max_for_run env run_dir t False) =
          Inr (Some \<lparr>run = basename (rstrip_sep run_dir), max_value = v,
                     max_step = s, max_file = Some fl\<rparr>)"
    using compute_max_for_run_located[OF assms(1), of t False] st
    by (simp add: select_files_def summarise_def)
  with v fi find_event_files_sorted[OF assms(1)] show ?thesis by blast
qed

text \<open>Claim C1. The comparison of the running maximum is Python's \<^verbatim>\<open>>\<close> on floats,
  which is false whenever one side is NaN. In the second example tree the event file of
  \<^verbatim>\<open>runN\<close> parses and holds three records of tag \<^verbatim>\<open>acc\<close>: NaN at step 1, 1.0 at
  step 2 and 7.0 at step 3. The first record is taken because nothing was seen before
  it, and no later record replaces it: \<^verbatim>\<open>compute_max_for_run\<close> returns NaN at step
  1, not the maximum 7.0 at step 3.\<close>

theorem compute_max_keeps_leading_nan:
  "find_event_files example_env2 ''runN'' = Inr [''runN/events.out.tfevents.1'']
   \<and> read_events example_env2 ''runN/events.out.tfevents.1'' (Some [''acc'']) =
       ([], Inr ([\<lparr>tag = ''acc'', step = Some 1, val = Some NaN, wall_time = Some 100\<rparr>,
                  \<lparr>tag = ''acc'', step = Some 2, val = Some (Num 1.0), wall_time = Some 200\<rparr>,
                  \<lparr>tag = ''acc'', step = Some 3, val = Some (Num 7.0), wall_time = Some 300\<rparr>],
                 [''acc''], ''tensorboard.EventAccumulator''))
   \<and> py_gt (Num 7.0) (Num 1.0) \<and> \<not> py_gt (Num 7.0) NaN \<and> \<not> py_gt (Num 1.0) NaN
   \<and> compute_max_for_run example_env2 ''runN'' ''acc'' False =
       ([], Inr (Some \<lparr>run = ''runN'', max_value = NaN, max_step = Some 1,
                       max_file = Some ''events.out.tfevents.1''\<rparr>))"
  by code_simp

text \<open>On the locator's list: for an existing run directory the locator returns a list,
  and \<^verbatim>\<open>compute_max_for_run\<close> returns \<^verbatim>\<open>None\<close>, with no exception, both when
  that list is empty and when no file of the list yields a row for the tag, whatever
  \<^verbatim>\<open>latest_only\<close> is.\<close>

lemma compute_max_absent:
  assumes "isdir env run_dir"
  shows "\<exists>files. find_event_files env run_dir = Inr files
    \<and> (files = [] \<longrightarrow> compute_max_for_run env run_dir t latest_only = ([], Inr None))
    \<and> ((\<forall>f \<in> set files. rows_of env t f = []) \<longrightarrow>
          snd (compute_max_for_run env run_dir t latest_only) = Inr None)"
proof -
  obtain files where fs: "find_event_files env run_dir = Inr files"
    using assms by (simp add: find_event_files_def Let_def)
  have a: "files = [] \<longrightarrow> compute_max_for_run env run_dir t latest_only = ([], Inr None)"
    using fs by (simp add: compute_max_for_run_def)
  have b: "snd (compute_max_for_run env run_dir t latest_only) = Inr None"
    if h: "\<forall>f \<in> set files. rows_of env t f = []"
  proof -
    have "\<forall>f \<in> set (select_files latest_only files). rows_of env t f = []"
      using h select_files_subset[of latest_only files] by blast
    then have "pooled env t (select_files latest_only files) = []"
      by (simp add: pooled_def valued_def)
    then show ?thesis
      using compute_max_for_run_located[OF fs, of t latest_only] by (simp add: summarise_def)
  qed
  from fs a b show ?thesis by blast
qed

text \<open>Claim C8. When the locator finds more than one event file, \<^verbatim>\<open>compute_max_for_run\<close>
  with \<^verbatim>\<open>latest_only\<close> set reads exactly one file, the last of the located list,
  and no located file was modified later than it: the result and what is written are
  those of the single call of \<^verbatim>\<open>read_events\<close> on that file. With one file or none
  located, \<^verbatim>\<open>latest_only\<close> changes nothing.\<close>

theorem latest_only_reads_newest:
  assumes "find_event_files env run_dir = Inr files"
  shows "(length files > 1 \<longrightarrow>
      (\<forall>f \<in> set files. getmtime env f \<le> getmtime env (last files))
      \<and> compute_max_for_run env run_dir t True =
          (case read_events env (last files) (Some [t]) of
             (err, Inl e) \<Rightarrow>
               (err @ [Stdout (''[Warn] Skip file due to parse error: '' @ last files @ '': '' @ str e)],
                Inr None)
           | (err, Inr (rows, available, backend)) \<Rightarrow>
               (err, Inr (summarise run_dir
                  (fold (row_step (basename (last files))) rows (None, None, None))))))
    \<and> (length files \<le> 1 \<longrightarrow>
      compute_max_for_run env run_dir t True = compute_max_for_run env run_dir t False)"
proof -
  have newest: "\<forall>f \<in> set files. getmtime env f \<le> getmtime env (last files)"
    using sorted_last_greatest[OF find_event_files_sorted[OF assms]] by blast
  have one: "compute_max_for_run env run_dir t True =
          (case read_events env (last files) (Some [t]) of
             (err, Inl e) \<Rightarrow>
               (err @ [Stdout (''[Warn] Skip file due to parse error: '' @ last files @ '': '' @ str e)],
                Inr None)
           | (err, Inr (rows, available, backend)) \<Rightarrow>
               (err, Inr (summarise run_dir
                  (fold (row_step (basename (last files))) rows (None, None, None)))))"
    if "length files > 1"
  proof -
    have ne: "files \<noteq> []" using that by auto
    show ?thesis using assms ne that
      by (simp add: compute_max_for_run_def select_files_def summarise_def
          split: prod.split sum.split)
  qed
  have same: "compute_max_for_run env run_dir t True = compute_max_for_run env run_dir t False"
    if "length files \<le> 1"
    using assms that by (simp add: compute_max_for_run_def select_files_def)
  from newest one same show ?thesis by blast
qed

theorem latest_only_reads_newest_witness:
  "find_event_files example_env ''runA'' =
     Inr [''runA/events.out.tfevents.1'', ''runA/events.out.tfevents.2'']
   \<and> getmtime example_env ''runA/events.out.tfevents.1'' \<le> getmtime example_env ''runA/events.out.tfevents.2''
   \<and> compute_max_for_run example_env ''runA'' ''acc'' True =
       ([], Inr (Some \<lparr>run = ''runA'', max_value = Num 0.9, max_step = Some 12,
                       max_file = Some ''events.out.tfevents.2''\<rparr>))
   \<and> find_event_files example_env ''runC'' = Inr [''runC/events.out.tfevents.1'']
   \<and> compute_max_for_run example_env ''runC'' ''loss'' True =
       compute_max_for_run example_env ''runC'' ''loss'' False"
proof -
  let ?fs = "[''runA/events.out.tfevents.1'', ''runA/events.out.tfevents.2'']"
  have a: "find_event_files example_env ''runA'' = Inr ?fs" by code_simp
  have c: "find_event_files example_env ''runC'' = Inr [''runC/events.out.tfevents.1'']"
    by code_simp
  have rd: "read_events example_env ''runA/events.out.tfevents.2'' (Some [''acc'']) =
      ([], Inr ([\<lparr>tag = ''acc'', step = Some 12, val = Some (Num 0.9), wall_time = Some 400\<rparr>,
                 \<lparr>tag = ''acc'', step = Some 15, val = Some (Num 0.5), wall_time = Some 500\<rparr>],
                [''acc'', ''lr''], ''tensorboard.EventAccumulator''))"
    by code_simp
  have bn: "basename ''runA/events.out.tfevents.2'' = ''events.out.tfevents.2''"
    and rn: "basename (rstrip_sep ''runA'') = ''runA''" by code_simp+
  have "getmtime example_env ''runA/events.out.tfevents.1'' \<le> getmtime example_env ''runA/events.out.tfevents.2''"
    using latest_only_reads_newest[OF a, of "''acc''"] by simp
  moreover have "compute_max_for_run example_env ''runA'' ''acc'' True =
       ([], Inr (Some \<lparr>run = ''runA'', max_value = Num 0.9, max_step = Some 12,
                       max_file = Some ''events.out.tfevents.2''\<rparr>))"
  proof -
    have l: "last ?fs = ''runA/events.out.tfevents.2''" by simp
    have "compute_max_for_run example_env ''runA'' ''acc'' True =
       ([], Inr (summarise ''runA'' (fold (row_step ''events.out.tfevents.2'')
           [\<lparr>tag = ''acc'', step = Some 12, val = Some (Num 0.9), wall_time = Some 400\<rparr>,
            \<lparr>tag = ''acc'', step = Some 15, val = Some (Num 0.5), wall_time = Some 500\<rparr>]
           (None, None, None))))"
      using latest_only_reads_newest[OF a, of "''acc''"] unfolding l rd bn by simp
    then show ?thesis by (simp add: row_step_def summarise_def rn)
  qed
  moreover have "compute_max_for_run example_env ''runC'' ''loss'' True =
       compute_max_for_run example_env ''runC'' ''loss'' False"
    using latest_only_reads_newest[OF c, of "''loss''"] by simp
  ultimately show ?thesis using a c by simp
qed

lemma fold_row_step_valued_only:
  "fold (row_step fl) rows st = fold (row_step fl) (filter (\<lambda>r. val r \<noteq> None) rows) st"
proof (induction rows arbitrary: st)
  case Nil
  show ?case by simp
next
  case (Cons r rows)
  obtain a b c where st: "st = (a, b, c)" by (cases st)
  show ?case
  proof (cases "val r")
    case None
    then show ?thesis using Cons.IH[of st] by (simp add: row_step_def st)
  next
    case (Some v)
    then show ?thesis using Cons.IH by simp
  qed
qed

text \<open>Claim C10. \<^verbatim>\<open>compute_max_for_run\<close> skips every record whose value is
  \<^verbatim>\<open>None\<close>: the loop over the rows of a file ends in the same state as the loop over
  the rows that have a value, and the result is computed from the pooled records with a
  value alone; it is never an exception once the files are located. A run whose records
  for the tag all lack a value yields \<^verbatim>\<open>None\<close>, as a run with no record does.\<close>

theorem absent_values_are_skipped:
  assumes "find_event_files env run_dir = Inr files"
  shows "fold (row_step fl) rows st = fold (row_step fl) (filter (\<lambda>r. val r \<noteq> None) rows) st
    \<and> snd (compute_max_for_run env run_dir t latest_only) =
        Inr (summarise run_dir
               (fold keep_max (pooled env t (select_files latest_only files)) (None, None, None)))
    \<and> ((\<forall>f \<in> set files. \<forall>r \<in> set (rows_of env t f). val r = None) \<longrightarrow>
         snd (compute_max_for_run env run_dir t latest_only) = Inr None)"
proof -
  have c: "snd (compute_max_for_run env run_dir t latest_only) = Inr None"
    if h: "\<forall>f \<in> set files. \<forall>r \<in> set (rows_of env t f). val r = None"
  proof -
    have v: "valued b rs = []" if "\<forall>r \<in> set rs. val r = None" for b rs
      using that by (induction rs) (auto simp: valued_def)
    have "\<forall>f \<in> set (select_files latest_only files). valued (basename f) (rows_of env t f) = []"
      using h select_files_subset[of latest_only files] v by blast
    then have "pooled env t (select_files latest_only files) = []"
      by (simp add: pooled_def)
    then show ?thesis
      using compute_max_for_run_located[OF assms, of t latest_only] by (simp add: summarise_def)
  qed
  from fold_row_step_valued_only[of fl rows st] compute_max_for_run_located[OF assms, of t latest_only] c
  show ?thesis by blast
qed

theorem absent_values_are_skipped_witness:
  "find_event_files example_env ''runA'' =
     Inr [''runA/events.out.tfevents.1'', ''runA/events.out.tfevents.2'']
   \<and> rows_of example_env ''lr'' ''runA/events.out.tfevents.1'' = []
   \<and> rows_of example_env ''lr'' ''runA/events.out.tfevents.2'' =
       [\<lparr>tag = ''lr'', step = Some 15, val = None, wall_time = Some 500\<rparr>]
   \<and> snd (compute_max_for_run example_env ''runA'' ''lr'' False) = Inr None"
proof -
  let ?fs = "[''runA/events.out.tfevents.1'', ''runA/events.out.tfevents.2'']"
  have a: "find_event_files example_env ''runA'' = Inr ?fs" by code_simp
  have r1: "rows_of example_env ''lr'' ''runA/events.out.tfevents.1'' = []" by code_simp
  have r2: "rows_of example_env ''lr'' ''runA/events.out.tfevents.2'' =
       [\<lparr>tag = ''lr'', step = Some 15, val = None, wall_time = Some 500\<rparr>]" by code_simp
  have "snd (compute_max_for_run example_env ''runA'' ''lr'' False) = Inr None"
    using absent_values_are_skipped[where t="''lr''" and latest_only=False, OF a,
        THEN conjunct2, THEN conjunct2] r1 r2 by simp
  with a r1 r2 show ?thesis by simp
qed

section \<open>The batch read of read\_results\<close>

lemma read_files_raises:
  "f \<in> set fs \<Longrightarrow> snd (read_events env f tags) = Inl e \<Longrightarrow>
     \<exists>e'. snd (read_files env tags fs (out, st)) = Inl e'"
proof (induction fs arbitrary: out st)
  case Nil
  then show ?case by simp
next
  case (Cons g fs)
  obtain all_rows union_tags used_backend where st: "st = (all_rows, union_tags, used_backend)"
    by (cases st)
  obtain err res where r: "read_events env g tags = (err, res)"
    by (cases "read_events env g tags")
  show ?case
  proof (cases res)
    case (Inl e1)
    then show ?thesis using r by (simp add: st)
  next
    case (Inr x)
    obtain rows available backend where x: "x = (rows, available, backend)" by (cases x)
    have "f \<in> set fs" using Cons.prems r Inr by auto
    from Cons.IH[OF this Cons.prems(2)] show ?thesis using r Inr x by (simp add: st)
  qed
qed

lemma scan_files_skips_failed:
  "snd (read_events env f (Some [t])) = Inl e \<Longrightarrow>
     snd (scan_files env t (f # fs) (out, st)) = fold keep_max (pooled env t fs) st"
  using scan_files_state[of env t "f # fs" out st]
  by (simp add: pooled_def rows_of_def valued_def)

text \<open>Claim C2. The batch read of \<^verbatim>\<open>read_results.main\<close> has no exception handler
  around \<^verbatim>\<open>read_events\<close>. In the example tree, run directory \<^verbatim>\<open>runD\<close> holds two
  event files; the older one is rejected by both libraries, the newer one is read by
  the summary iterator backend. The batch read raises at the first file: no row and no
  tag of the second file is produced. \<^verbatim>\<open>compute_max_for_run\<close> on the same directory
  skips the first file with a warning and returns the maximum of the second.\<close>

theorem main_read_aborts_on_bad_file:
  "find_event_files example_env ''runD'' =
     Inr [''runD/events.out.tfevents.1'', ''runD/events.out.tfevents.2'']
   \<and> snd (read_events example_env ''runD/events.out.tfevents.1'' None) =
       Inl (RuntimeError ''Failed to parse event file with tensorflow: data loss'')
   \<and> snd (read_events example_env ''runD/events.out.tfevents.2'' None) =
       Inr ([\<lparr>tag = ''acc'', step = Some 3, val = Some (Num 0.7), wall_time = Some 100\<rparr>],
            [''acc''], ''tensorflow.summary_iterator'')
   \<and> snd (main_read example_env ''runD'' None False) =
       Raised (RuntimeError ''Failed to parse event file with tensorflow: data loss'')
   \<and> snd (compute_max_for_run example_env ''runD'' ''acc'' False) =
       Inr (Some \<lparr>run = ''runD'', max_value = Num 0.7, max_step = Some 3,
                  max_file = Some ''events.out.tfevents.2''\<rparr>)"
  by code_simp

section \<open>The locator: what it returns\<close>

lemma fnmatch_star: "fnmatch n ''*''"
  by (induction n) auto

lemma fnmatch_literal:
  "c \<noteq> CHR ''*'' \<Longrightarrow> c \<noteq> CHR ''?'' \<Longrightarrow>
     fnmatch n (c # ps) = (\<exists>n'. n = c # n' \<and> fnmatch n' ps)"
  by (cases n) auto

lemma fnmatch_prefix:
  "\<forall>c \<in> set lit. c \<noteq> CHR ''*'' \<and> c \<noteq> CHR ''?'' \<Longrightarrow>
     fnmatch n (lit @ ''*'') = prefix lit n"
proof (induction lit arbitrary: n)
  case Nil
  show ?case using fnmatch_star by simp
next
  case (Cons c lit)
  then show ?case by (cases n) (auto simp: fnmatch_literal)
qed

lemma fnmatch_events:
  "fnmatch n ''events.out.tfevents.*'' = prefix ''events.out.tfevents.'' n"
  using fnmatch_prefix[of "''events.out.tfevents.''" n] by simp

lemma glob1_events:
  "glob1 env d ''events.out.tfevents.*'' =
     filter (prefix ''events.out.tfevents.'') (listdir env d)"
proof -
  have "prefix ''events.out.tfevents.'' n \<Longrightarrow> \<not> ishidden n" for n
    by (auto simp: ishidden_def prefix_def)
  then show ?thesis
    by (auto simp: glob1_def ishidden_def fnmatch_events[abs_def] intro!: filter_cong)
qed

lemma rstrip_sep_noend: "\<not> endswith_sep p \<Longrightarrow> rstrip_sep p = p"
  by (cases "rev p") (auto simp: endswith_sep_def rstrip_sep_def)

lemma normdir_noend: "\<not> endswith_sep p \<Longrightarrow> normdir p = p"
  by (simp add: normdir_def rstrip_sep_noend)

lemma split_join_pattern:
  assumes "p \<noteq> []" and "\<forall>c \<in> set pat. c \<noteq> CHR ''/''"
  shows "split_path (join p pat) = (normdir p, pat)"
proof -
  have ns: "\<not> startswith_sep pat"
    using assms(2) by (cases pat) (auto simp: startswith_sep_def)
  have tk: "takeWhile (\<lambda>c. c \<noteq> CHR ''/'') (rev pat @ ys) =
            rev pat @ takeWhile (\<lambda>c. c \<noteq> CHR ''/'') ys" for ys
    by (rule takeWhile_append2) (use assms(2) in auto)
  have dr: "dropWhile (\<lambda>c. c \<noteq> CHR ''/'') (rev pat @ ys) =
            dropWhile (\<lambda>c. c \<noteq> CHR ''/'') ys" for ys
    by (rule dropWhile_append2) (use assms(2) in auto)
  show ?thesis
  proof (cases "endswith_sep p")
    case True
    then obtain q where q: "rev p = CHR ''/'' # q"
      by (cases "rev p") (auto simp: endswith_sep_def)
    have j: "join p pat = p @ pat" using True ns by (simp add: join_def)
    have rp: "rev (CHR ''/'' # q) = p" using q by (metis rev_rev_ident)
    show ?thesis
      unfolding j split_path_def basename_def Let_def normdir_def
      using tk[of "rev p"] dr[of "rev p"] q rp assms(1) by simp
  next
    case False
    have j: "join p pat = p @ ''/'' @ pat" using False ns assms(1) by (simp add: join_def)
    have na: "\<not> list_all (\<lambda>c. c = CHR ''/'') p"
      using False assms(1) by (cases "rev p") (auto simp: endswith_sep_def list_all_iff)
    have rs: "rstrip_sep (p @ ''/'') = p" using rstrip_sep_noend[OF False]
      by (simp add: rstrip_sep_def)
    show ?thesis
      unfolding j split_path_def basename_def Let_def normdir_def
      using tk[of "CHR ''/'' # rev p"] dr[of "CHR ''/'' # rev p"] na rs
        rstrip_sep_noend[OF False] by simp
  qed
qed

lemma has_magic_normdir: "has_magic (normdir p) \<Longrightarrow> has_magic p"
proof -
  have "set (rstrip_sep p) \<subseteq> set p"
    unfolding rstrip_sep_def using set_dropWhileD[of _ "\<lambda>c. c = CHR ''/''" "rev p"] by auto
  then show "has_magic (normdir p) \<Longrightarrow> has_magic p"
    by (auto simp: has_magic_def normdir_def list_ex_iff split: if_splits)
qed

lemma normdir_nonempty: "p \<noteq> [] \<Longrightarrow> normdir p \<noteq> []"
  by (cases "rev p") (auto simp: normdir_def rstrip_sep_def list_all_iff dropWhile_eq_Nil_conv)

lemma glob_plain_dir:
  assumes "p \<noteq> []" and "\<not> has_magic p"
  shows "glob env (join p ''events.out.tfevents.*'') =
         map (join (normdir p))
           (filter (prefix ''events.out.tfevents.'') (listdir env (normdir p)))"
proof -
  have sp: "split_path (join p ''events.out.tfevents.*'') = (normdir p, ''events.out.tfevents.*'')"
    by (rule split_join_pattern[OF assms(1)]) simp
  show ?thesis
    unfolding glob_def sp
    using normdir_nonempty[OF assms(1)] has_magic_normdir[of p] assms(2)
    by (auto simp: glob1_events)
qed

text \<open>The locator on a path without glob metacharacters. For a directory it returns
  the entries of the directory itself (named without trailing separators) whose name
  starts with \<^verbatim>\<open>events.out.tfevents.\<close> and that are files, ordered by modification
  time ascending; entries of subdirectories are never listed. For a file that is not a
  directory it returns the file alone, whatever its name, and for a path that is neither
  it raises \<^verbatim>\<open>FileNotFoundError\<close>.\<close>

lemma find_event_files_plain:
  assumes "p \<noteq> []" and "\<not> has_magic p"
  shows "(isdir env p \<longrightarrow>
      (\<exists>fs. find_event_files env p = Inr fs
        \<and> set fs = {join (normdir p) n | n. n \<in> set (listdir env (normdir p))
              \<and> prefix ''events.out.tfevents.'' n \<and> isfile env (join (normdir p) n)}
        \<and> sorted (map (getmtime env) fs)))
    \<and> (\<not> isdir env p \<and> isfile env p \<longrightarrow> find_event_files env p = Inr [p])
    \<and> (\<not> isdir env p \<and> \<not> isfile env p \<longrightarrow>
          find_event_files env p = Inl (FileNotFoundError (''Path not found: '' @ p)))"
proof -
  have d: "\<exists>fs. find_event_files env p = Inr fs
        \<and> set fs = {join (normdir p) n | n. n \<in> set (listdir env (normdir p))
              \<and> prefix ''events.out.tfevents.'' n \<and> isfile env (join (normdir p) n)}
        \<and> sorted (map (getmtime env) fs)" if dir: "isdir env p"
  proof -
    let ?fs = "sort_key (getmtime env) (filter (isfile env)
        (map (join (normdir p))
           (filter (prefix ''events.out.tfevents.'') (listdir env (normdir p)))))"
    have r: "find_event_files env p = Inr ?fs"
      using dir by (simp add: find_event_files_def Let_def glob_plain_dir[OF assms])
    have s: "set ?fs = {join (normdir p) n | n. n \<in> set (listdir env (normdir p))
              \<and> prefix ''events.out.tfevents.'' n \<and> isfile env (join (normdir p) n)}"
      by auto
    have o: "sorted (map (getmtime env) ?fs)" by simp
    show ?thesis by (rule exI[of _ ?fs]) (simp only: r s o simp_thms)
  qed
  have f: "\<not> isdir env p \<and> isfile env p \<longrightarrow> find_event_files env p = Inr [p]"
    by (simp add: find_event_files_def)
  have m: "\<not> isdir env p \<and> \<not> isfile env p \<longrightarrow>
          find_event_files env p = Inl (FileNotFoundError (''Path not found: '' @ p))"
    by (simp add: find_event_files_def)
  from d f m show ?thesis by blast
qed

text \<open>Claim C6. The locator builds its glob pattern from the path without escaping it.
  In the example tree the directory \<^verbatim>\<open>run[1]\<close> exists and holds the event file
  \<^verbatim>\<open>events.out.tfevents.1\<close>; glob reads \<^verbatim>\<open>[1]\<close> as a character class, looks for
  a directory \<^verbatim>\<open>run1\<close>, finds none, and the locator returns no file at all.\<close>

theorem locator_misses_files_of_bracket_directory:
  "isdir example_env ''run[1]''
   \<and> has_magic ''run[1]''
   \<and> listdir example_env ''run[1]'' = [''events.out.tfevents.1'']
   \<and> isfile example_env ''run[1]/events.out.tfevents.1''
   \<and> glob_dirs example_env ''run[1]'' = []
   \<and> find_event_files example_env ''run[1]'' = Inr []"
  by code_simp

text \<open>Claim C7. The unescaped glob pattern of the locator (see claim C6) also breaks
  the absent outcome. In the second example tree the run directory \<^verbatim>\<open>run[1]\<close>
  exists and contains nothing at all, hence zero event files. Glob reads the name as a
  pattern, which matches the sibling directory \<^verbatim>\<open>run1\<close>; the locator returns the
  event file of that directory, and \<^verbatim>\<open>compute_max_for_run\<close> returns a summary for
  \<^verbatim>\<open>run[1]\<close> made of another run's records instead of \<^verbatim>\<open>None\<close>.\<close>

theorem empty_bracket_directory_gets_summary:
  "isdir example_env2 ''run[1]''
   \<and> listdir example_env2 ''run[1]'' = []
   \<and> glob_dirs example_env2 ''run[1]'' = [''run1'']
   \<and> find_event_files example_env2 ''run[1]'' = Inr [''run1/events.out.tfevents.1'']
   \<and> compute_max_for_run example_env2 ''run[1]'' ''acc'' False =
       ([], Inr (Some \<lparr>run = ''run[1]'', max_value = Num 0.9, max_step = Some 5,
                       max_file = Some ''events.out.tfevents.1''\<rparr>))"
  by code_simp

end
